theory Spec2Isabelle
  imports Complex_Main "HOL-Library.Multiset" "HOL-Library.Product_Lexorder"
begin

section \<open>Gene-set scoring and cell-cycle phases (scanpy/tools/score\_genes.py)\<close>

text \<open>
  A shallow embedding of \<^verbatim>\<open>score_genes\<close> and \<^verbatim>\<open>score_genes_cell_cycle\<close>.

  Conventions of the embedding:
  \<^item> a float64 is a \<^typ>\<open>rat option\<close>: \<open>None\<close> is not-a-number, \<open>Some q\<close> the number
    \<open>q\<close>; arithmetic on numbers is exact (rounding error and overflow of floating point
    are outside the model);
  \<^item> Python 3 division: \<^verbatim>\<open>/\<close> on two ints is true division and raises
    \<^verbatim>\<open>ZeroDivisionError\<close> on a zero divisor;
  \<^item> the matrix is a dense array or a scipy sparse matrix, both given by their rows;
    the two are told apart where the source or the library treats them differently
    (lines 76 to 82, and the mean of line 98);
  \<^item> a pandas Series is an association list in index order (the index may repeat a
    label);
  \<^item> a Python \<^verbatim>\<open>set\<close> of gene names is a HOL set; where the source turns it into a
    list (whose order Python leaves open) the model lists it in the order of
    \<^verbatim>\<open>var_names\<close>: only order-independent results (means) are computed from it;
  \<^item> containers are objects on a heap, addressed by references, since
    \<^verbatim>\<open>adata.copy()\<close> makes a second object and the functions mutate in place;
  \<^item> numpy's process-wide generator is a state of an arbitrary type \<open>'g\<close>; its two
    operations \<^verbatim>\<open>np.random.seed\<close> and \<^verbatim>\<open>np.random.shuffle\<close> are parameters;
  \<^item> the calls to the logging collaborator have no effect on the values modelled and
    are left out.
\<close>

subsection \<open>Values, errors, the container\<close>

type_synonym gene = string

type_synonym val = "rat option"

type_synonym 'a series = "(gene \<times> 'a) list"

datatype error = ZeroDivisionError | KeyError | ValueError | TypeError

datatype matrix = Dense "val list list" | Sparse "val list list"

fun issparse :: "matrix \<Rightarrow> bool" where
  "issparse (Dense rows) = False"
| "issparse (Sparse rows) = True"

fun toarray :: "matrix \<Rightarrow> val list list" where
  "toarray (Dense rows) = rows"
| "toarray (Sparse rows) = rows"

datatype column = Floats "val list" | Strings "string list"

record anndata =
  X :: matrix
  var_names :: "gene list"
  obs_names :: "string list"
  obs :: "string \<rightharpoonup> column"

fun index_of :: "'a list \<Rightarrow> 'a \<Rightarrow> nat" where
  "index_of [] x = 0"
| "index_of (y # ys) x = (if x = y then 0 else Suc (index_of ys x))"

text \<open>\<^verbatim>\<open>adata[:, names].X\<close>: the rows of the matrix restricted to the named columns.\<close>

definition columns :: "anndata \<Rightarrow> gene list \<Rightarrow> val list list" where
  "columns a names =
     map (\<lambda>row. map (\<lambda>g. row ! index_of (var_names a) g) names) (toarray (X a))"

subsection \<open>Numeric primitives of numpy and pandas\<close>

text \<open>\<^verbatim>\<open>np.nanmean\<close> of one column: the mean of the entries that are numbers.\<close>

definition nanmean :: "val list \<Rightarrow> val" where
  "nanmean vs =
     (let xs = map the (filter (\<lambda>v. v \<noteq> None) vs)
      in if xs = [] then None else Some (sum_list xs / of_nat (length xs)))"

text \<open>\<^verbatim>\<open>np.mean\<close> of one row: not-a-number over no entry or over any not-a-number.\<close>

definition mean :: "val list \<Rightarrow> val" where
  "mean vs =
     (if vs = [] \<or> None \<in> set vs then None
      else Some (sum_list (map the vs) / of_nat (length vs)))"

text \<open>\<^verbatim>\<open>np.nanmean(M, axis=0)\<close>: one value per column of a matrix with \<open>k\<close> columns.\<close>

definition nanmean_axis0 :: "nat \<Rightarrow> val list list \<Rightarrow> val list" where
  "nanmean_axis0 k rows = map (\<lambda>j. nanmean (map (\<lambda>row. row ! j) rows)) [0..<k]"

text \<open>
  \<^verbatim>\<open>np.mean(M, axis=1)\<close> of a matrix with \<open>k\<close> columns: one value per row. On a scipy
  sparse matrix the mean is the row sum times \<open>1.0 / k\<close> and raises
  \<^verbatim>\<open>ZeroDivisionError\<close> when there is no column; on a dense array the mean over no
  entry is not-a-number.
\<close>

definition mean_axis1 :: "bool \<Rightarrow> nat \<Rightarrow> val list list \<Rightarrow> error + val list" where
  "mean_axis1 sparse k rows =
     (if sparse \<and> k = 0 then Inl ZeroDivisionError else Inr (map mean rows))"

text \<open>Comparison and subtraction of floats: a comparison with not-a-number is false.\<close>

fun lt_val :: "val \<Rightarrow> val \<Rightarrow> bool" where
  "lt_val (Some x) (Some y) = (x < y)"
| "lt_val _ _ = False"

fun sub_val :: "val \<Rightarrow> val \<Rightarrow> val" where
  "sub_val (Some x) (Some y) = Some (x - y)"
| "sub_val _ _ = None"

text \<open>\<^verbatim>\<open>np.round\<close>: to the nearest integer, a half to the even neighbour.\<close>

definition np_round :: "rat \<Rightarrow> int" where
  "np_round q =
     (let f = \<lfloor>q\<rfloor>; d = q - of_int f
      in if d < 1 / 2 then f else if 1 / 2 < d then f + 1
         else if even f then f else f + 1)"

text \<open>
  \<^verbatim>\<open>Series.rank(method='min')\<close>: a number gets one plus the count of numbers strictly
  below it; not-a-number keeps no rank.
\<close>

definition rank_min :: "val series \<Rightarrow> nat option series" where
  "rank_min sr =
     map (\<lambda>(g, v). (g, case v of None \<Rightarrow> None
                        | Some x \<Rightarrow> Some (1 + length (filter (\<lambda>w. lt_val w (Some x)) (map snd sr)))))
       sr"

text \<open>
  A bin value is a float: an integer, plus infinity (pandas' result of floor-dividing a
  positive number by zero) or not-a-number.
\<close>

datatype cut = Fin int | PosInf | NaN

fun floordiv :: "nat option \<Rightarrow> int \<Rightarrow> cut" where
  "floordiv None n = NaN"
| "floordiv (Some r) n = (if n = 0 then PosInf else Fin (int r div n))"

subsection \<open>score\_genes, lines 76 to 85: average expression, bin width, bins\<close>

definition obs_avg_of :: "anndata \<Rightarrow> gene list \<Rightarrow> val series" where
  "obs_avg_of a gene_pool =
     (if issparse (X a)
      then zip gene_pool (nanmean_axis0 (length gene_pool) (columns a gene_pool))
      else zip gene_pool (nanmean_axis0 (length gene_pool) (columns a gene_pool)))"

definition n_items_of :: "nat \<Rightarrow> int \<Rightarrow> error + int" where
  "n_items_of len n_bins =
     (if n_bins - 1 = 0 then Inl ZeroDivisionError
      else Inr (np_round (of_nat len / of_int (n_bins - 1))))"

definition obs_cut_of :: "val series \<Rightarrow> int \<Rightarrow> cut series" where
  "obs_cut_of obs_avg n_items = map (\<lambda>(g, r). (g, floordiv r n_items)) (rank_min obs_avg)"

subsection \<open>numpy's process-wide generator\<close>

text \<open>
  The generator is not part of this repository: its state type and its two operations
  are parameters. \<open>np_seed\<close> is the state installed by \<^verbatim>\<open>np.random.seed(n)\<close> for an
  accepted \<open>n\<close>; \<open>np_shuffle g xs\<close> is the array left by \<^verbatim>\<open>np.random.shuffle\<close> run on
  \<open>xs\<close> in state \<open>g\<close>, with the state it leaves.
\<close>

record 'g np_random =
  np_seed :: "int \<Rightarrow> 'g"
  np_shuffle :: "'g \<Rightarrow> gene list \<Rightarrow> gene list \<times> 'g"

record 'g state =
  heap :: "anndata list"
  rng :: 'g

text \<open>\<^verbatim>\<open>np.random.seed\<close> accepts the integers from 0 to \<open>2^32 - 1\<close> and raises otherwise.\<close>

definition random_seed :: "'g np_random \<Rightarrow> 'g state \<Rightarrow> int \<Rightarrow> error + 'g state" where
  "random_seed np s n =
     (if 0 \<le> n \<and> n < 2 ^ 32 then Inr (s\<lparr>rng := np_seed np n\<rparr>) else Inl ValueError)"

text \<open>\<^verbatim>\<open>adata.copy()\<close>: a new object with the same contents, at a fresh reference.\<close>

definition copy_adata :: "'g state \<Rightarrow> nat \<Rightarrow> 'g state \<times> nat" where
  "copy_adata s r = (s\<lparr>heap := heap s @ [heap s ! r]\<rparr>, length (heap s))"

subsection \<open>score\_genes, lines 64 to 95: the gene list, the pool, the control genes\<close>

text \<open>
  \<^verbatim>\<open>obs_cut.loc[gene_list]\<close>: the values at the labels of the set; a label that the index
  lacks raises \<^verbatim>\<open>KeyError\<close>. The rows are listed in index order (the source sorts them
  next).
\<close>

definition loc :: "'a series \<Rightarrow> gene set \<Rightarrow> error + 'a list" where
  "loc sr labels =
     (if labels \<subseteq> fst ` set sr then Inr (map snd (filter (\<lambda>(g, c). g \<in> labels) sr))
      else Inl KeyError)"

text \<open>\<^verbatim>\<open>np.unique\<close>: sorted and without repetition; infinity after the integers,
  not-a-number last.\<close>

fun cut_key :: "cut \<Rightarrow> nat \<times> int" where
  "cut_key (Fin i) = (0, i)"
| "cut_key PosInf = (1, 0)"
| "cut_key NaN = (2, 0)"

definition unique :: "cut list \<Rightarrow> cut list" where
  "unique cs = remdups_adj (sort_key cut_key cs)"

text \<open>\<^verbatim>\<open>==\<close> on floats: not-a-number equals nothing.\<close>

definition eq_cut :: "cut \<Rightarrow> cut \<Rightarrow> bool" where
  "eq_cut c d = (c \<noteq> NaN \<and> d \<noteq> NaN \<and> c = d)"

text \<open>The slice \<^verbatim>\<open>xs[:k]\<close>: a negative \<open>k\<close> counts from the end.\<close>

definition slice_to :: "int \<Rightarrow> 'a list \<Rightarrow> 'a list" where
  "slice_to k xs =
     (if 0 \<le> k then take (nat k) xs else take (nat (int (length xs) + k)) xs)"

text \<open>Line 90, \<^verbatim>\<open>obs_cut[obs_cut == cut].index\<close>: the pool entries whose bin equals
  \<open>c\<close>, in pool order.\<close>

definition bin_entries :: "cut series \<Rightarrow> cut \<Rightarrow> gene list" where
  "bin_entries obs_cut c = map fst (filter (\<lambda>(x, d). eq_cut d c) obs_cut)"

text \<open>Lines 90 to 92, the body of the loop: the genes of one bin, shuffled, cut to
  \<^verbatim>\<open>ctrl_size\<close>.\<close>

definition sample_bin ::
  "'g np_random \<Rightarrow> cut series \<Rightarrow> int \<Rightarrow> cut \<Rightarrow> 'g \<Rightarrow> gene list \<times> 'g" where
  "sample_bin np obs_cut ctrl_size c g =
     (let r_genes = bin_entries obs_cut c;
          (r_genes', g') = np_shuffle np g r_genes
      in (slice_to ctrl_size r_genes', g'))"

text \<open>Lines 89 to 92, the loop over the bins.\<close>

fun pick_controls ::
  "'g np_random \<Rightarrow> cut series \<Rightarrow> int \<Rightarrow> cut list \<Rightarrow> 'g \<Rightarrow> gene set \<Rightarrow> 'g \<times> gene set" where
  "pick_controls np obs_cut ctrl_size [] g control_genes = (g, control_genes)"
| "pick_controls np obs_cut ctrl_size (c # cs) g control_genes =
     (let (picked, g') = sample_bin np obs_cut ctrl_size c g
      in pick_controls np obs_cut ctrl_size cs g' (control_genes \<union> set picked))"

text \<open>Line 64 and lines 66 to 69.\<close>

definition filter_gene_list :: "anndata \<Rightarrow> gene list \<Rightarrow> gene set" where
  "filter_gene_list a gene_list = set (filter (\<lambda>x. x \<in> set (var_names a)) gene_list)"

definition resolve_gene_pool :: "anndata \<Rightarrow> gene list option \<Rightarrow> gene list" where
  "resolve_gene_pool a gene_pool =
     (if gene_pool = None \<or> gene_pool = Some [] then var_names a
      else filter (\<lambda>x. x \<in> set (var_names a)) (the gene_pool))"

text \<open>Lines 66 to 85: the bin of every entry of the pool.\<close>

definition bin_genes :: "anndata \<Rightarrow> gene list option \<Rightarrow> int \<Rightarrow> error + cut series" where
  "bin_genes a gene_pool n_bins =
     (let gene_pool' = resolve_gene_pool a gene_pool;
          obs_avg = obs_avg_of a gene_pool'
      in case n_items_of (length obs_avg) n_bins of
           Inl e \<Rightarrow> Inl e
         | Inr n_items \<Rightarrow> Inr (obs_cut_of obs_avg n_items))"

text \<open>
  Lines 64 to 92 as one function of the generator state on entry: it returns the state
  after the loop, the filtered gene list and the control genes as the loop leaves them.
\<close>

definition sample_controls ::
  "'g np_random \<Rightarrow> 'g \<Rightarrow> anndata \<Rightarrow> gene list \<Rightarrow> int \<Rightarrow> gene list option \<Rightarrow> int
     \<Rightarrow> error + ('g \<times> gene set \<times> gene set)" where
  "sample_controls np g a gene_list ctrl_size gene_pool n_bins =
     (let gene_list' = filter_gene_list a gene_list
      in case bin_genes a gene_pool n_bins of
           Inl e \<Rightarrow> Inl e
         | Inr obs_cut \<Rightarrow>
             (case loc obs_cut gene_list' of
                Inl e \<Rightarrow> Inl e
              | Inr cuts \<Rightarrow>
                  let (g', control_genes) =
                        pick_controls np obs_cut ctrl_size (unique cuts) g {}
                  in Inr (g', gene_list', control_genes)))"

text \<open>Lines 64 to 95: line 95 removes the gene list from the control genes.\<close>

definition select_controls ::
  "'g np_random \<Rightarrow> 'g \<Rightarrow> anndata \<Rightarrow> gene list \<Rightarrow> int \<Rightarrow> gene list option \<Rightarrow> int
     \<Rightarrow> error + ('g \<times> gene set \<times> gene set)" where
  "select_controls np g a gene_list ctrl_size gene_pool n_bins =
     (case sample_controls np g a gene_list ctrl_size gene_pool n_bins of
        Inl e \<Rightarrow> Inl e
      | Inr (g', gene_list', control_genes) \<Rightarrow>
          Inr (g', gene_list', control_genes - gene_list'))"

subsection \<open>score\_genes\<close>

definition list_of :: "anndata \<Rightarrow> gene set \<Rightarrow> gene list" where
  "list_of a S = filter (\<lambda>g. g \<in> S) (var_names a)"

text \<open>
  Line 98: the row means over the columns of the gene list minus the row means over the
  columns of the control genes, taken on the matrix as it is stored.
\<close>

definition score_of :: "anndata \<Rightarrow> gene set \<Rightarrow> gene set \<Rightarrow> error + val list" where
  "score_of a gene_list control_genes =
     (let gl = list_of a gene_list;
          cg = list_of a control_genes
      in case mean_axis1 (issparse (X a)) (length gl) (columns a gl) of
           Inl e \<Rightarrow> Inl e
         | Inr m1 \<Rightarrow>
             (case mean_axis1 (issparse (X a)) (length cg) (columns a cg) of
                Inl e \<Rightarrow> Inl e
              | Inr m2 \<Rightarrow> Inr (map2 sub_val m1 m2)))"

text \<open>
  The value passed as \<^verbatim>\<open>random_state\<close>: an integer (Python's \<^verbatim>\<open>False\<close> and \<^verbatim>\<open>True\<close> are
  the integers 0 and 1), or any value that is falsy and not an integer (\<^verbatim>\<open>None\<close>,
  \<^verbatim>\<open>0.0\<close>, an empty string or container).
\<close>

datatype random_state_value = RS_int int | RS_falsy

text \<open>Lines 61 and 62.\<close>

fun seed_if_truthy :: "'g np_random \<Rightarrow> 'g state \<Rightarrow> random_state_value \<Rightarrow> error + 'g state" where
  "seed_if_truthy np s (RS_int n) = (if n \<noteq> 0 then random_seed np s n else Inr s)"
| "seed_if_truthy np s RS_falsy = Inr s"

text \<open>
  The function takes the state (heap and generator) and the reference \<open>adata\<close>; it
  returns the state it leaves and either the exception raised or the value returned
  (\<open>None\<close> is Python's \<^verbatim>\<open>None\<close>, \<open>Some r\<close> a reference to a container).
  \<open>score_genes_body\<close> is the body of the function; beside the value returned it
  reports the locals \<^verbatim>\<open>gene_list\<close> and \<^verbatim>\<open>control_genes\<close> as they stand at line 98.
  \<open>score_genes_locals\<close> is the body for an integer \<^verbatim>\<open>random_state\<close>.
\<close>

definition score_genes_body ::
  "'g np_random \<Rightarrow> 'g state \<Rightarrow> nat \<Rightarrow> gene list \<Rightarrow> int \<Rightarrow> gene list option \<Rightarrow> int \<Rightarrow> string
     \<Rightarrow> random_state_value \<Rightarrow> bool
     \<Rightarrow> 'g state \<times> (error + nat option \<times> gene set \<times> gene set)" where
  "score_genes_body np s adata gene_list ctrl_size gene_pool n_bins score_name
       random_state copy =
     (let (s1, adata') = (if copy then copy_adata s adata else (s, adata))
      in case seed_if_truthy np s1 random_state of
           Inl e \<Rightarrow> (s1, Inl e)
         | Inr s2 \<Rightarrow>
             (case select_controls np (rng s2) (heap s2 ! adata') gene_list ctrl_size
                     gene_pool n_bins of
                Inl e \<Rightarrow> (s2, Inl e)
              | Inr (g, gene_list', control_genes) \<Rightarrow>
                  let a = heap s2 ! adata'
                  in (case score_of a gene_list' control_genes of
                        Inl e \<Rightarrow> (s2\<lparr>rng := g\<rparr>, Inl e)
                      | Inr score \<Rightarrow>
                          let a' = a\<lparr>obs := (obs a)(score_name \<mapsto> Floats score)\<rparr>
                          in (s2\<lparr>heap := (heap s2)[adata' := a'], rng := g\<rparr>,
                              Inr (if copy then Some adata' else None, gene_list',
                                   control_genes)))))"

definition score_genes_locals ::
  "'g np_random \<Rightarrow> 'g state \<Rightarrow> nat \<Rightarrow> gene list \<Rightarrow> int \<Rightarrow> gene list option \<Rightarrow> int \<Rightarrow> string
     \<Rightarrow> int \<Rightarrow> bool \<Rightarrow> 'g state \<times> (error + nat option \<times> gene set \<times> gene set)" where
  "score_genes_locals np s adata gene_list ctrl_size gene_pool n_bins score_name
       random_state copy =
     score_genes_body np s adata gene_list ctrl_size gene_pool n_bins score_name
       (RS_int random_state) copy"

definition score_genes ::
  "'g np_random \<Rightarrow> 'g state \<Rightarrow> nat \<Rightarrow> gene list \<Rightarrow> int \<Rightarrow> gene list option \<Rightarrow> int \<Rightarrow> string
     \<Rightarrow> int \<Rightarrow> bool \<Rightarrow> 'g state \<times> (error + nat option)" where
  "score_genes np s adata gene_list ctrl_size gene_pool n_bins score_name random_state copy =
     (case score_genes_locals np s adata gene_list ctrl_size gene_pool n_bins score_name
             random_state copy of
        (s', Inl e) \<Rightarrow> (s', Inl e)
      | (s', Inr (r, gene_list', control_genes)) \<Rightarrow> (s', Inr r))"

subsection \<open>score\_genes\_cell\_cycle\<close>

text \<open>
  The keyword dictionary \<^verbatim>\<open>**kwargs\<close>, one optional entry per parameter name of
  \<^verbatim>\<open>score_genes\<close> (\<open>None\<close>: the key is absent) and the list of its other keys.
  \<^verbatim>\<open>copy\<close> is a parameter of \<^verbatim>\<open>score_genes_cell_cycle\<close> itself and never reaches the
  dictionary.
\<close>

record kwargs =
  kw_adata :: "nat option"
  kw_gene_list :: "gene list option"
  kw_ctrl_size :: "int option"
  kw_gene_pool :: "gene list option option"
  kw_n_bins :: "int option"
  kw_score_name :: "string option"
  kw_random_state :: "int option"
  kw_other :: "string list"

text \<open>
  The call \<^verbatim>\<open>score_genes(adata, gene_list=.., score_name=.., ctrl_size=.., **kwargs)\<close>:
  Python raises \<^verbatim>\<open>TypeError\<close>, before the body runs, when the dictionary repeats an
  argument passed explicitly or names no parameter; otherwise the parameters left take
  the dictionary's value or their default.
\<close>

definition call_score_genes ::
  "'g np_random \<Rightarrow> 'g state \<Rightarrow> nat \<Rightarrow> gene list \<Rightarrow> string \<Rightarrow> int \<Rightarrow> kwargs
     \<Rightarrow> 'g state \<times> (error + nat option)" where
  "call_score_genes np s adata gene_list score_name ctrl_size kw =
     (if kw_adata kw \<noteq> None \<or> kw_gene_list kw \<noteq> None \<or> kw_score_name kw \<noteq> None
         \<or> kw_ctrl_size kw \<noteq> None \<or> kw_other kw \<noteq> []
      then (s, Inl TypeError)
      else score_genes np s adata gene_list ctrl_size
             (case kw_gene_pool kw of None \<Rightarrow> None | Some p \<Rightarrow> p)
             (case kw_n_bins kw of None \<Rightarrow> 25 | Some n \<Rightarrow> n)
             score_name
             (case kw_random_state kw of None \<Rightarrow> 0 | Some r \<Rightarrow> r)
             False)"

text \<open>\<^verbatim>\<open>phase[mask] = v\<close>: the entries under a true mask are overwritten.\<close>

definition mask_assign :: "'a list \<Rightarrow> bool list \<Rightarrow> 'a \<Rightarrow> 'a list" where
  "mask_assign xs msk v = map2 (\<lambda>x m. if m then v else x) xs msk"

text \<open>Lines 162 to 169.\<close>

definition assign_phase :: "val list \<Rightarrow> val list \<Rightarrow> string list" where
  "assign_phase S_score G2M_score =
     (let phase = replicate (length S_score) ''S'';
          phase = mask_assign phase (map2 (\<lambda>s g. lt_val s g) S_score G2M_score) ''G2M'';
          phase = mask_assign phase
                    (map2 (\<lambda>s g. lt_val s (Some 0) \<and> lt_val g (Some 0)) S_score G2M_score)
                    ''G1''
      in phase)"

text \<open>Reading a score column of the annotation table.\<close>

fun floats_of :: "column option \<Rightarrow> error + val list" where
  "floats_of (Some (Floats xs)) = Inr xs"
| "floats_of (Some (Strings xs)) = Inl TypeError"
| "floats_of None = Inl KeyError"

definition score_genes_cell_cycle ::
  "'g np_random \<Rightarrow> 'g state \<Rightarrow> nat \<Rightarrow> gene list \<Rightarrow> gene list \<Rightarrow> bool \<Rightarrow> kwargs
     \<Rightarrow> 'g state \<times> (error + nat option)" where
  "score_genes_cell_cycle np s adata s_genes g2m_genes copy kw =
     (let (s1, adata') = (if copy then copy_adata s adata else (s, adata));
          ctrl_size = min (int (length s_genes)) (int (length g2m_genes))
      in case call_score_genes np s1 adata' s_genes ''S_score'' ctrl_size kw of
           (s2, Inl e) \<Rightarrow> (s2, Inl e)
         | (s2, Inr _) \<Rightarrow>
             (case call_score_genes np s2 adata' g2m_genes ''G2M_score'' ctrl_size kw of
                (s3, Inl e) \<Rightarrow> (s3, Inl e)
              | (s3, Inr _) \<Rightarrow>
                  let a = heap s3 ! adata'
                  in (case floats_of (obs a ''S_score'') of
                        Inl e \<Rightarrow> (s3, Inl e)
                      | Inr S_score \<Rightarrow>
                          (case floats_of (obs a ''G2M_score'') of
                             Inl e \<Rightarrow> (s3, Inl e)
                           | Inr G2M_score \<Rightarrow>
                               let phase = assign_phase S_score G2M_score;
                                   a' = a\<lparr>obs := (obs a)(''phase'' \<mapsto> Strings phase)\<rparr>
                               in (s3\<lparr>heap := (heap s3)[adata' := a']\<rparr>,
                                   Inr (if copy then Some adata' else None))))))"

subsection \<open>Reference notions and example data\<close>

text \<open>
  Competition ranking in the words of the specification: the rank of entry \<open>i\<close> among
  the averages is one more than the number of entries strictly below it.
\<close>

definition competition_rank :: "val list \<Rightarrow> nat \<Rightarrow> nat" where
  "competition_rank avgs i = 1 + card {j. j < length avgs \<and> lt_val (avgs ! j) (avgs ! i)}"

text \<open>
  The container that carries the result of a call of \<open>score_genes_locals\<close> on the
  reference \<open>adata\<close>, with the two gene sets, or the error raised.
\<close>

definition outcome ::
  "'g state \<times> (error + nat option \<times> gene set \<times> gene set) \<Rightarrow> nat
     \<Rightarrow> error + anndata \<times> gene set \<times> gene set" where
  "outcome res adata =
     (case snd res of
        Inl e \<Rightarrow> Inl e
      | Inr (r, gene_list', control_genes) \<Rightarrow>
          Inr (heap (fst res) ! (case r of None \<Rightarrow> adata | Some c \<Rightarrow> c),
               gene_list', control_genes))"

text \<open>
  A generator for the examples: its state is a counter, seeding sets the counter,
  shuffling rotates the array by the counter and advances it.
\<close>

definition rot_random :: "nat np_random" where
  "rot_random = \<lparr>np_seed = (\<lambda>n. nat n), np_shuffle = (\<lambda>g xs. (rotate g xs, Suc g))\<rparr>"

text \<open>Two cells and six genes; the averages are 2, 2, 4, 4, 6, 6.\<close>

definition ex_adata :: anndata where
  "ex_adata =
     \<lparr>X = Dense [[Some 1, Some 2, Some 3, Some 4, Some 5, Some 6],
                 [Some 3, Some 2, Some 5, Some 4, Some 7, Some 6]],
      var_names = [''A'', ''B'', ''C'', ''D'', ''E'', ''F''],
      obs_names = [''c1'', ''c2''],
      obs = Map.empty\<rparr>"

definition ex_state :: "nat state" where
  "ex_state = \<lparr>heap = [ex_adata], rng = 0\<rparr>"

definition no_kwargs :: kwargs where
  "no_kwargs =
     \<lparr>kw_adata = None, kw_gene_list = None, kw_ctrl_size = None, kw_gene_pool = None,
      kw_n_bins = None, kw_score_name = None, kw_random_state = None, kw_other = []\<rparr>"

text \<open>
  The bin index in the words of claim C1: the competition rank integer-divided by the
  ceiling of the pool size over \<open>n_bins - 1\<close>.
\<close>

definition claimed_bin_index :: "val list \<Rightarrow> int \<Rightarrow> nat \<Rightarrow> int" where
  "claimed_bin_index avgs n_bins i =
     int (competition_rank avgs i) div \<lceil>(of_nat (length avgs) :: rat) / of_int (n_bins - 1)\<rceil>"

definition ex_pool5 :: "gene list" where
  "ex_pool5 = [''A'', ''B'', ''C'', ''D'', ''E'']"


text \<open>The state left by a first unseeded call that scores a copy.\<close>

definition ex_state1 :: "nat state" where
  "ex_state1 = fst (score_genes rot_random ex_state 0 [''A''] 2 None 2 ''score'' 0 True)"

text \<open>
  Three cells and three genes with equal averages, for the cell-cycle function: with
  gene K as the control the S scores are -3, 1, 2 and the G2M scores -2, 3, -1.
\<close>

definition cc_adata :: anndata where
  "cc_adata =
     \<lparr>X = Sparse [[Some 1, Some 2, Some 4],
                  [Some 3, Some 5, Some 2],
                  [Some 5, Some 2, Some 3]],
      var_names = [''S1'', ''M1'', ''K''],
      obs_names = [''c1'', ''c2'', ''c3''],
      obs = Map.empty\<rparr>"

definition cc_state :: "nat state" where
  "cc_state = \<lparr>heap = [cc_adata], rng = 0\<rparr>"

definition cc_kwargs :: kwargs where
  "cc_kwargs = no_kwargs\<lparr>kw_n_bins := Some 2, kw_random_state := Some 2\<rparr>"

section \<open>Properties\<close>

subsection \<open>Auxiliary facts about score\_genes\<close>

lemma select_controls_Inr:
  assumes "select_controls np g a gene_list ctrl_size gene_pool n_bins = Inr (g', gl, ctrl)"
  shows "gl = filter_gene_list a gene_list" and "ctrl \<inter> gl = {}"
  using assms
  by (auto simp: select_controls_def sample_controls_def Let_def split: sum.splits prod.splits)


text \<open>
  The body of \<open>score_genes\<close> read off as a whole: the container worked on has the
  contents of \<open>heap s ! adata\<close> whether it was copied or not, and the generator state
  entering line 64 is the seeded one for a nonzero \<open>random_state\<close>.
\<close>

lemma score_genes_locals_unfold:
  "score_genes_locals np s adata gene_list ctrl_size gene_pool n_bins score_name random_state copy =
     (let s1 = (if copy then s\<lparr>heap := heap s @ [heap s ! adata]\<rparr> else s);
          ad = (if copy then length (heap s) else adata);
          a = heap s ! adata
      in if random_state \<noteq> 0 \<and> \<not> (0 \<le> random_state \<and> random_state < 2 ^ 32)
         then (s1, Inl ValueError)
         else let g0 = (if random_state \<noteq> 0 then np_seed np random_state else rng s)
              in case select_controls np g0 a gene_list ctrl_size gene_pool n_bins of
                   Inl e \<Rightarrow> (s1\<lparr>rng := g0\<rparr>, Inl e)
                 | Inr (g, gl, ctrl) \<Rightarrow>
                     (case score_of a gl ctrl of
                        Inl e \<Rightarrow> (s1\<lparr>rng := g\<rparr>, Inl e)
                      | Inr score \<Rightarrow>
                          (s1\<lparr>heap := (heap s1)[ad := a\<lparr>obs := (obs a)(score_name \<mapsto>
                                                         Floats score)\<rparr>],
                              rng := g\<rparr>,
                           Inr (if copy then Some ad else None, gl, ctrl))))"
  by (auto simp: score_genes_locals_def score_genes_body_def copy_adata_def random_seed_def
                 Let_def
           split: sum.splits prod.splits)

lemma score_genes_body_falsy:
  "score_genes_body np s adata gene_list ctrl_size gene_pool n_bins score_name RS_falsy copy
     = score_genes_locals np s adata gene_list ctrl_size gene_pool n_bins score_name 0 copy"
  by (simp add: score_genes_locals_def score_genes_body_def)

lemma filter_gene_list_drop_unknown:
  assumes "U \<inter> set (var_names a) = {}"
  shows "filter_gene_list a (filter (\<lambda>x. x \<notin> U) gene_list) = filter_gene_list a gene_list"
  using assms by (auto simp: filter_gene_list_def)

lemma select_controls_cong_gene_list:
  assumes "filter_gene_list a gl1 = filter_gene_list a gl2"
  shows "select_controls np g a gl1 cs gp nb = select_controls np g a gl2 cs gp nb"
  using assms by (simp add: select_controls_def sample_controls_def)

lemma sample_bin_seed_irrelevant:
  "sample_bin (np\<lparr>np_seed := sd\<rparr>) obs_cut ctrl_size c g = sample_bin np obs_cut ctrl_size c g"
  by (simp add: sample_bin_def)

lemma pick_controls_seed_irrelevant:
  "pick_controls (np\<lparr>np_seed := sd\<rparr>) obs_cut ctrl_size cs g acc
     = pick_controls np obs_cut ctrl_size cs g acc"
  by (induction cs arbitrary: g acc) (simp_all add: sample_bin_seed_irrelevant)

lemma select_controls_seed_irrelevant:
  "select_controls (np\<lparr>np_seed := sd\<rparr>) g a gl cs gp nb = select_controls np g a gl cs gp nb"
  by (simp add: select_controls_def sample_controls_def pick_controls_seed_irrelevant Let_def
           cong: sum.case_cong)

lemma length_score_of:
  "score_of a gl ctrl = Inr sc \<Longrightarrow> length sc = length (toarray (X a))"
  by (auto simp: score_of_def mean_axis1_def columns_def Let_def split: sum.splits if_splits)

lemma score_genes_locals_Inr:
  assumes "score_genes_locals np s adata gene_list ctrl_size gene_pool n_bins score_name
             random_state copy = (s', Inr (r, gl, ctrl))"
  shows "r = (if copy then Some (length (heap s)) else None)"
    and "\<exists>sc. score_of (heap s ! adata) gl ctrl = Inr sc
           \<and> heap s' = (if copy then heap s @ [heap s ! adata] else heap s)
                 [(if copy then length (heap s) else adata) :=
                    (heap s ! adata)\<lparr>obs := (obs (heap s ! adata))
                        (score_name \<mapsto> Floats sc)\<rparr>]"
    and "select_controls np (if random_state \<noteq> 0 then np_seed np random_state else rng s)
               (heap s ! adata) gene_list ctrl_size gene_pool n_bins = Inr (rng s', gl, ctrl)"
  using assms
  unfolding score_genes_locals_unfold Let_def
  by (auto split: if_splits sum.splits prod.splits)

lemma score_genes_Inr:
  assumes "score_genes np s adata gene_list ctrl_size gene_pool n_bins score_name random_state copy
             = (s', Inr r)"
  shows "\<exists>gl ctrl sc. r = (if copy then Some (length (heap s)) else None)
           \<and> score_of (heap s ! adata) gl ctrl = Inr sc
           \<and> heap s' = (if copy then heap s @ [heap s ! adata] else heap s)
                 [(if copy then length (heap s) else adata) :=
                    (heap s ! adata)\<lparr>obs := (obs (heap s ! adata))
                        (score_name \<mapsto> Floats sc)\<rparr>]"
proof -
  from assms obtain gl ctrl where
    "score_genes_locals np s adata gene_list ctrl_size gene_pool n_bins score_name
       random_state copy = (s', Inr (r, gl, ctrl))"
    by (auto simp: score_genes_def split: prod.splits sum.splits)
  from score_genes_locals_Inr(1,2) [OF this] show ?thesis by blast
qed

lemma outcome_score_genes_locals:
  assumes "a < length (heap s)"
  shows "outcome (score_genes_locals np s a gene_list ctrl_size gene_pool n_bins score_name
                    random_state copy) a =
     (if random_state \<noteq> 0 \<and> \<not> (0 \<le> random_state \<and> random_state < 2 ^ 32) then Inl ValueError
      else case select_controls np (if random_state \<noteq> 0 then np_seed np random_state else rng s)
                  (heap s ! a) gene_list ctrl_size gene_pool n_bins of
             Inl e \<Rightarrow> Inl e
           | Inr (g, gl, ctrl) \<Rightarrow>
               (case score_of (heap s ! a) gl ctrl of
                  Inl e \<Rightarrow> Inl e
                | Inr sc \<Rightarrow>
                    Inr ((heap s ! a)\<lparr>obs := (obs (heap s ! a))(score_name \<mapsto> Floats sc)\<rparr>,
                         gl, ctrl)))"
proof (cases "random_state \<noteq> 0 \<and> \<not> (0 \<le> random_state \<and> random_state < 2 ^ 32)")
  case True
  then show ?thesis
    by (simp add: score_genes_locals_unfold outcome_def Let_def)
next
  case False
  show ?thesis
  proof (cases "select_controls np (if random_state \<noteq> 0 then np_seed np random_state else rng s)
                  (heap s ! a) gene_list ctrl_size gene_pool n_bins")
    case (Inl e)
    with False show ?thesis
      by (auto simp: score_genes_locals_unfold outcome_def Let_def)
  next
    case (Inr x)
    then obtain g gl ctrl where x: "x = (g, gl, ctrl)" by (cases x) auto
    show ?thesis
    proof (cases "score_of (heap s ! a) gl ctrl")
      case (Inl e)
      with False Inr x show ?thesis
        by (auto simp: score_genes_locals_unfold outcome_def Let_def)
    next
      case (Inr sc)
      with False \<open>select_controls np (if random_state \<noteq> 0 then np_seed np random_state else rng s)
                  (heap s ! a) gene_list ctrl_size gene_pool n_bins = Inr x\<close> x assms
      show ?thesis
        by (auto simp: score_genes_locals_unfold outcome_def Let_def nth_append)
    qed
  qed
qed

lemma select_controls_one_bin:
  "select_controls np g a gene_list ctrl_size gene_pool 1 = Inl ZeroDivisionError"
  by (simp add: select_controls_def sample_controls_def bin_genes_def n_items_of_def Let_def)

subsection \<open>Auxiliary facts about score\_genes\_cell\_cycle\<close>

lemma assign_phase_length:
  "length G = length S \<Longrightarrow> length (assign_phase S G) = length S"
  by (simp add: assign_phase_def mask_assign_def Let_def)

lemma assign_phase_nth:
  assumes "length G = length S" "i < length S"
  shows "assign_phase S G ! i =
           (if lt_val (S ! i) (Some 0) \<and> lt_val (G ! i) (Some 0) then ''G1''
            else if lt_val (S ! i) (G ! i) then ''G2M'' else ''S'')"
  using assms by (simp add: assign_phase_def mask_assign_def Let_def)

lemma call_score_genes_ok:
  assumes "kw_adata kw = None" "kw_gene_list kw = None" "kw_score_name kw = None"
          "kw_ctrl_size kw = None" "kw_other kw = []"
  shows "call_score_genes np s adata gene_list score_name ctrl_size kw =
           score_genes np s adata gene_list ctrl_size
             (case kw_gene_pool kw of None \<Rightarrow> None | Some p \<Rightarrow> p)
             (case kw_n_bins kw of None \<Rightarrow> 25 | Some n \<Rightarrow> n)
             score_name
             (case kw_random_state kw of None \<Rightarrow> 0 | Some r \<Rightarrow> r)
             False"
  using assms by (simp add: call_score_genes_def)

lemma call_score_genes_Inr:
  assumes "call_score_genes np s adata gene_list score_name ctrl_size kw = (s', Inr r)"
  shows "kw_adata kw = None \<and> kw_gene_list kw = None \<and> kw_score_name kw = None
         \<and> kw_ctrl_size kw = None \<and> kw_other kw = []"
  using assms by (auto simp: call_score_genes_def split: if_splits)

lemma call_score_genes_in_place:
  assumes "call_score_genes np s adata gene_list score_name ctrl_size kw = (s', Inr r)"
      and "adata < length (heap s)"
  shows "\<exists>sc. length sc = length (toarray (X (heap s ! adata)))
           \<and> heap s' = (heap s)[adata :=
                    (heap s ! adata)\<lparr>obs := (obs (heap s ! adata))(score_name \<mapsto> Floats sc)\<rparr>]"
proof -
  from assms(1)
  have "score_genes np s adata gene_list ctrl_size
             (case kw_gene_pool kw of None \<Rightarrow> None | Some p \<Rightarrow> p)
             (case kw_n_bins kw of None \<Rightarrow> 25 | Some n \<Rightarrow> n)
             score_name
             (case kw_random_state kw of None \<Rightarrow> 0 | Some r \<Rightarrow> r)
             False = (s', Inr r)"
    by (simp add: call_score_genes_def split: if_splits)
  from score_genes_Inr [OF this] obtain gl ctrl sc where
    "score_of (heap s ! adata) gl ctrl = Inr sc"
    "heap s' = (heap s)[adata := (heap s ! adata)\<lparr>obs := (obs (heap s ! adata))
                        (score_name \<mapsto> Floats sc)\<rparr>]"
    by auto
  with length_score_of [of "heap s ! adata" gl ctrl sc] show ?thesis by blast
qed

text \<open>The heap after a returning call of the cell-cycle function.\<close>

lemma cell_cycle_Inr:
  assumes run: "score_genes_cell_cycle np s adata s_genes g2m_genes copy kw = (s', Inr r)"
      and valid: "adata < length (heap s)"
  shows "\<exists>S G. length S = length (toarray (X (heap s ! adata)))
           \<and> length G = length (toarray (X (heap s ! adata)))
           \<and> r = (if copy then Some (length (heap s)) else None)
           \<and> heap s' = (if copy then heap s @ [heap s ! adata] else heap s)
                 [(if copy then length (heap s) else adata) :=
                    (heap s ! adata)\<lparr>obs := (obs (heap s ! adata))
                       (''S_score'' \<mapsto> Floats S, ''G2M_score'' \<mapsto> Floats G,
                        ''phase'' \<mapsto> Strings (assign_phase S G))\<rparr>]"
proof -
  define s1 where "s1 = (if copy then s\<lparr>heap := heap s @ [heap s ! adata]\<rparr> else s)"
  define ad where "ad = (if copy then length (heap s) else adata)"
  define cs where "cs = min (int (length s_genes)) (int (length g2m_genes))"
  define a where "a = heap s ! adata"
  have ad: "ad < length (heap s1)" and a: "heap s1 ! ad = a"
    using valid by (auto simp: s1_def ad_def a_def)
  have cp: "(if copy then copy_adata s adata else (s, adata)) = (s1, ad)"
    by (simp add: copy_adata_def s1_def ad_def)
  obtain s2 r2 where c1: "call_score_genes np s1 ad s_genes ''S_score'' cs kw = (s2, r2)"
    by (cases "call_score_genes np s1 ad s_genes ''S_score'' cs kw")
  obtain s3 r3 where c2: "call_score_genes np s2 ad g2m_genes ''G2M_score'' cs kw = (s3, r3)"
    by (cases "call_score_genes np s2 ad g2m_genes ''G2M_score'' cs kw")
  from run obtain x2 where r2: "r2 = Inr x2"
    by (cases r2) (simp_all add: score_genes_cell_cycle_def cp cs_def [symmetric] c1)
  from run r2 obtain x3 where r3: "r3 = Inr x3"
    by (cases r3) (simp_all add: score_genes_cell_cycle_def cp cs_def [symmetric] c1 c2)
  from call_score_genes_in_place [OF c1 [unfolded r2] ad] a
  obtain S where S: "length S = length (toarray (X a))"
    and h2: "heap s2 = (heap s1)[ad := a\<lparr>obs := (obs a)(''S_score'' \<mapsto> Floats S)\<rparr>]"
    by auto
  have ad2: "ad < length (heap s2)" using ad h2 by simp
  have a2: "heap s2 ! ad = a\<lparr>obs := (obs a)(''S_score'' \<mapsto> Floats S)\<rparr>"
    using ad h2 by simp
  from call_score_genes_in_place [OF c2 [unfolded r3] ad2] a2
  obtain G where G: "length G = length (toarray (X a))"
    and h3: "heap s3 = (heap s1)[ad := a\<lparr>obs := (obs a)(''S_score'' \<mapsto> Floats S,
                                                   ''G2M_score'' \<mapsto> Floats G)\<rparr>]"
    using h2 by auto
  have a3: "heap s3 ! ad = a\<lparr>obs := (obs a)(''S_score'' \<mapsto> Floats S,
                                                   ''G2M_score'' \<mapsto> Floats G)\<rparr>"
    using ad h3 by simp
  from run have "r = (if copy then Some ad else None)"
    and "heap s' = (heap s3)[ad := a\<lparr>obs := (obs a)
                       (''S_score'' \<mapsto> Floats S, ''G2M_score'' \<mapsto> Floats G,
                        ''phase'' \<mapsto> Strings (assign_phase S G))\<rparr>]"
    by (auto simp: score_genes_cell_cycle_def cp cs_def [symmetric] c1 c2 r2 r3 a3 Let_def)
  then have "r = (if copy then Some ad else None)"
    and "heap s' = (heap s1)[ad := a\<lparr>obs := (obs a)
                       (''S_score'' \<mapsto> Floats S, ''G2M_score'' \<mapsto> Floats G,
                        ''phase'' \<mapsto> Strings (assign_phase S G))\<rparr>]"
    by (simp_all add: h3)
  with S G show ?thesis
    unfolding a_def s1_def ad_def by (intro exI [of _ S] exI [of _ G]) auto
qed

subsection \<open>Auxiliary facts about bins, ranks and the sampling loop\<close>





















lemma length_obs_avg_of: "length (obs_avg_of a pool) = length pool"
  by (simp add: obs_avg_of_def nanmean_axis0_def)

lemma fst_obs_avg_of: "map fst (obs_avg_of a pool) = pool"
  by (simp add: obs_avg_of_def nanmean_axis0_def)



lemma competition_rank_filter:
  "i < length avgs \<Longrightarrow>
     competition_rank avgs i = 1 + length (filter (\<lambda>w. lt_val w (avgs ! i)) avgs)"
  by (simp add: competition_rank_def length_filter_conv_card)

lemma rank_min_nth:
  assumes "i < length sr"
  shows "rank_min sr ! i =
           (fst (sr ! i), case snd (sr ! i) of None \<Rightarrow> None
                          | Some x \<Rightarrow> Some (competition_rank (map snd sr) i))"
  using assms
  by (simp add: rank_min_def competition_rank_filter split: prod.splits option.splits)

lemma np_round_nearest:
  "\<bar>q - of_int (np_round q)\<bar> \<le> 1 / 2
   \<and> (\<bar>q - of_int (np_round q)\<bar> = 1 / 2 \<longrightarrow> even (np_round q))"
proof -
  define d where "d = q - of_int \<lfloor>q\<rfloor>"
  have d: "0 \<le> d" "d < 1" unfolding d_def by linarith+
  have q: "q = of_int \<lfloor>q\<rfloor> + d" unfolding d_def by simp
  consider (lo) "d < 1 / 2" | (hi) "1 / 2 < d" | (even) "d = 1 / 2" "even \<lfloor>q\<rfloor>"
    | (odd) "d = 1 / 2" "odd \<lfloor>q\<rfloor>"
    by fastforce
  then show ?thesis
  proof cases
    case lo
    then have "np_round q = \<lfloor>q\<rfloor>" by (simp add: np_round_def d_def)
    with lo d show ?thesis by (simp add: d_def [symmetric])
  next
    case hi
    then have r: "np_round q = \<lfloor>q\<rfloor> + 1" by (simp add: np_round_def d_def)
    have "q - of_int (np_round q) = d - 1" unfolding r d_def by simp
    with hi d show ?thesis by simp
  next
    case even
    then have "np_round q = \<lfloor>q\<rfloor>" by (simp add: np_round_def d_def)
    with even show ?thesis by (simp add: d_def [symmetric])
  next
    case odd
    then have r: "np_round q = \<lfloor>q\<rfloor> + 1" by (simp add: np_round_def d_def)
    have "q - of_int (np_round q) = d - 1" unfolding r d_def by simp
    with odd r show ?thesis by simp
  qed
qed

lemma claimed_bin_index_code:
  "i < length avgs \<Longrightarrow> claimed_bin_index avgs n_bins i =
     int (1 + length (filter (\<lambda>w. lt_val w (avgs ! i)) avgs))
       div \<lceil>(of_nat (length avgs) :: rat) / of_int (n_bins - 1)\<rceil>"
  by (simp add: claimed_bin_index_def competition_rank_filter)

subsection \<open>Runs on the example containers\<close>

lemma ex_state1_heap0: "heap ex_state1 ! 0 = heap ex_state ! 0"
proof -
  have "snd (score_genes rot_random ex_state 0 [''A''] 2 None 2 ''score'' 0 True) = Inr (Some 1)"
    by code_simp
  then have "score_genes rot_random ex_state 0 [''A''] 2 None 2 ''score'' 0 True
               = (ex_state1, Inr (Some 1))"
    unfolding ex_state1_def by (metis prod.collapse)
  from score_genes_Inr [OF this] show ?thesis
    by (auto simp: ex_state_def nth_append)
qed

lemma ex_state1_len: "length (heap ex_state1) = 2" and ex_state1_rng: "rng ex_state1 = 1"
  by (code_simp)+

lemma cc_run_snd:
  "snd (score_genes_cell_cycle rot_random cc_state 0 [''S1''] [''M1''] False cc_kwargs) = Inr None"
  by code_simp

lemma cc_run_cols:
  "obs (heap (fst (score_genes_cell_cycle rot_random cc_state 0 [''S1''] [''M1''] False cc_kwargs)) ! 0) ''S_score''
     = Some (Floats [Some (- 3), Some 1, Some 2])"
  "obs (heap (fst (score_genes_cell_cycle rot_random cc_state 0 [''S1''] [''M1''] False cc_kwargs)) ! 0) ''G2M_score''
     = Some (Floats [Some (- 2), Some 3, Some (- 1)])"
  "obs (heap (fst (score_genes_cell_cycle rot_random cc_state 0 [''S1''] [''M1''] False cc_kwargs)) ! 0) ''phase''
     = Some (Strings [''G1'', ''G2M'', ''S''])"
  by code_simp+

lemma cc_ref_valid: "(0::nat) < length (heap cc_state)"
  by (simp add: cc_state_def)

lemma cc_copy_run_snd:
  "snd (score_genes rot_random cc_state 0 [''S1''] 1 None 2 ''score'' 2 True) = Inr (Some 1)"
  "snd (score_genes rot_random cc_state 0 [''S1''] 1 None 2 ''score'' 2 False) = Inr None"
  "snd (score_genes_cell_cycle rot_random cc_state 0 [''S1''] [''M1''] True cc_kwargs) = Inr (Some 1)"
  by code_simp+


text \<open>One run on the example container: gene list A, two controls per bin, two bins.\<close>

lemma ex_run_snd:
  "snd (score_genes_locals rot_random ex_state 0 [''A''] 2 None 2 ''score'' 0 False)
     = Inr (None, {''A''}, {''B''})"
  by code_simp

lemma ex_ref_valid: "(0::nat) < length (heap ex_state)"
  by (simp add: ex_state_def)

subsection \<open>Disjointness of the control genes\<close>

text \<open>
  Claim C5. Whenever \<open>score_genes\<close> returns, the control genes used at line 98 are
  disjoint from the filtered gene list: the two column subsets whose row means are
  subtracted share no gene, and the column written is the difference of exactly these
  two means.
\<close>

theorem control_genes_disjoint_from_gene_list:
  assumes "score_genes_locals np s adata gene_list ctrl_size gene_pool n_bins score_name
             random_state copy = (s', Inr (r, gl, ctrl))"
      and "adata < length (heap s)"
  shows "ctrl \<inter> gl = {}
       \<and> gl = filter_gene_list (heap s ! adata) gene_list
       \<and> set (list_of (heap s ! adata) ctrl) \<inter> set (list_of (heap s ! adata) gl) = {}
       \<and> (\<exists>sc. score_of (heap s ! adata) gl ctrl = Inr sc
             \<and> obs (heap s' ! (case r of None \<Rightarrow> adata | Some c \<Rightarrow> c)) score_name
                 = Some (Floats sc))"
proof -
  let ?a = "heap s ! adata"
  let ?g0 = "if random_state \<noteq> 0 then np_seed np random_state else rng s"
  from score_genes_locals_Inr [OF assms(1)] obtain sc where
    sel: "select_controls np ?g0 ?a gene_list ctrl_size gene_pool n_bins = Inr (rng s', gl, ctrl)"
    and r: "r = (if copy then Some (length (heap s)) else None)"
    and sc: "score_of ?a gl ctrl = Inr sc"
    and s': "heap s' = (if copy then heap s @ [?a] else heap s)
                 [(if copy then length (heap s) else adata) :=
                    ?a\<lparr>obs := (obs ?a)(score_name \<mapsto> Floats sc)\<rparr>]"
    by blast
  from select_controls_Inr [OF sel]
  have d: "ctrl \<inter> gl = {}" and f: "gl = filter_gene_list ?a gene_list"
    by simp_all
  from d have l: "set (list_of ?a ctrl) \<inter> set (list_of ?a gl) = {}"
    by (auto simp: list_of_def)
  have c: "obs (heap s' ! (case r of None \<Rightarrow> adata | Some c \<Rightarrow> c)) score_name
           = Some (Floats sc)"
    using assms(2) by (simp add: r s')
  show ?thesis
    by (intro conjI exI [of _ sc]) (rule d f l c sc)+
qed

theorem control_genes_disjoint_from_gene_list_witness:
  "{''B''} \<inter> {''A''} = ({}::gene set)
   \<and> score_of (heap ex_state ! 0) {''A''} {''B''} = Inr [Some (- 1), Some 1]
   \<and> obs (heap (fst (score_genes_locals rot_random ex_state 0 [''A''] 2 None 2 ''score'' 0
                       False)) ! 0)
        ''score'' = Some (Floats [Some (- 1), Some 1])"
proof -
  have run: "score_genes_locals rot_random ex_state 0 [''A''] 2 None 2 ''score'' 0 False
     = (fst (score_genes_locals rot_random ex_state 0 [''A''] 2 None 2 ''score'' 0 False),
        Inr (None, {''A''}, {''B''}))"
    using ex_run_snd by (metis prod.collapse)
  have sc: "score_of (heap ex_state ! 0) {''A''} {''B''} = Inr [Some (- 1), Some 1]"
    by code_simp
  note t = control_genes_disjoint_from_gene_list [OF run ex_ref_valid]
  from t have d: "{''B''} \<inter> {''A''} = ({}::gene set)" by (rule conjunct1)
  from t [THEN conjunct2, THEN conjunct2, THEN conjunct2] obtain sc' where
    a: "score_of (heap ex_state ! 0) {''A''} {''B''} = Inr sc'" and
    b: "obs (heap (fst (score_genes_locals rot_random ex_state 0 [''A''] 2 None 2 ''score'' 0
                         False)) ! 0) ''score'' = Some (Floats sc')"
    by (elim exE conjE) simp
  from a sc have "sc' = [Some (- 1), Some 1]" by simp
  with b have o: "obs (heap (fst (score_genes_locals rot_random ex_state 0 [''A''] 2 None 2
                         ''score'' 0 False)) ! 0) ''score'' = Some (Floats [Some (- 1), Some 1])"
    by simp
  show ?thesis
    by (intro conjI) (rule d sc o)+
qed

subsection \<open>Unknown gene names\<close>

text \<open>
  Claim C9. Let \<open>U\<close> be any collection of names absent from the gene names of the
  container. Calling \<open>score_genes\<close> with a gene list and calling it with the names of
  \<open>U\<close> removed from that list give the same result from the same state: the same
  final state (scores and generator), the same value or error, the same gene list and
  control genes.
\<close>

theorem score_genes_unknown_genes_dropped:
  assumes "U \<inter> set (var_names (heap s ! adata)) = {}"
  shows "score_genes_locals np s adata gene_list ctrl_size gene_pool n_bins score_name
             random_state copy
           = score_genes_locals np s adata (filter (\<lambda>x. x \<notin> U) gene_list) ctrl_size
               gene_pool n_bins score_name random_state copy
         \<and> score_genes np s adata gene_list ctrl_size gene_pool n_bins score_name
             random_state copy
           = score_genes np s adata (filter (\<lambda>x. x \<notin> U) gene_list) ctrl_size gene_pool
               n_bins score_name random_state copy"
proof -
  have eq: "select_controls np g (heap s ! adata) (filter (\<lambda>x. x \<notin> U) gene_list) ctrl_size
              gene_pool n_bins
          = select_controls np g (heap s ! adata) gene_list ctrl_size gene_pool n_bins" for g
    by (rule select_controls_cong_gene_list) (rule filter_gene_list_drop_unknown [OF assms])
  have "score_genes_locals np s adata gene_list ctrl_size gene_pool n_bins score_name
            random_state copy
           = score_genes_locals np s adata (filter (\<lambda>x. x \<notin> U) gene_list) ctrl_size
               gene_pool n_bins score_name random_state copy"
    by (simp add: score_genes_locals_unfold eq Let_def cong: sum.case_cong if_cong)
  then show ?thesis by (simp add: score_genes_def)
qed

theorem score_genes_unknown_genes_dropped_witness:
  "{''Z''} \<inter> set (var_names (heap ex_state ! 0)) = {}
   \<and> score_genes rot_random ex_state 0 [''A'', ''Z''] 2 None 2 ''score'' 0 False
     = score_genes rot_random ex_state 0 [''A''] 2 None 2 ''score'' 0 False"
proof -
  have h: "{''Z''} \<inter> set (var_names (heap ex_state ! 0)) = {}"
    by (simp add: ex_state_def ex_adata_def)
  from score_genes_unknown_genes_dropped
         [OF h, of rot_random "[''A'', ''Z'']" 2 None 2 "''score''" 0 False] h
  show ?thesis by simp
qed

subsection \<open>Seeding happens for a nonzero random\_state only\<close>

text \<open>
  Claim C10. With \<open>random_state = 0\<close> (the default; \<^verbatim>\<open>False\<close> is the same integer)
  \<open>score_genes\<close> never calls \<^verbatim>\<open>np.random.seed\<close>: the run is the same whatever the seed
  operation is, and the selection of control genes is the loop run from the generator
  state the call found. Any other falsy value (\<^verbatim>\<open>None\<close>, \<^verbatim>\<open>0.0\<close>, an empty string or
  container) gives the very run of \<open>random_state = 0\<close>. A nonzero \<open>random_state\<close> that
  numpy accepts makes the run equal to the unseeded run started from the state
  \<open>np_seed np random_state\<close>.
\<close>

theorem score_genes_falsy_random_state_not_seeded:
  "score_genes_locals (np\<lparr>np_seed := sd\<rparr>) s adata gene_list ctrl_size gene_pool n_bins
       score_name 0 copy
     = score_genes_locals np s adata gene_list ctrl_size gene_pool n_bins score_name 0 copy
   \<and> snd (score_genes_locals np s adata gene_list ctrl_size gene_pool n_bins score_name 0 copy)
     = (case select_controls np (rng s) (heap s ! adata) gene_list ctrl_size gene_pool n_bins of
          Inl e \<Rightarrow> Inl e
        | Inr (g, gl, ctrl) \<Rightarrow>
            (case score_of (heap s ! adata) gl ctrl of
               Inl e \<Rightarrow> Inl e
             | Inr sc \<Rightarrow> Inr (if copy then Some (length (heap s)) else None, gl, ctrl)))
   \<and> (0 < random_state \<and> random_state < 2 ^ 32 \<longrightarrow>
        score_genes_locals np s adata gene_list ctrl_size gene_pool n_bins score_name
            random_state copy
        = score_genes_locals np (s\<lparr>rng := np_seed np random_state\<rparr>) adata gene_list ctrl_size
            gene_pool n_bins score_name 0 copy)
   \<and> score_genes_body np s adata gene_list ctrl_size gene_pool n_bins score_name RS_falsy copy
     = score_genes_body np s adata gene_list ctrl_size gene_pool n_bins score_name (RS_int 0) copy
   \<and> score_genes_body np s adata gene_list ctrl_size gene_pool n_bins score_name (RS_int 0) copy
     = score_genes_locals np s adata gene_list ctrl_size gene_pool n_bins score_name 0 copy"
proof (intro conjI impI)
  show "score_genes_locals (np\<lparr>np_seed := sd\<rparr>) s adata gene_list ctrl_size gene_pool n_bins
            score_name 0 copy
     = score_genes_locals np s adata gene_list ctrl_size gene_pool n_bins score_name 0 copy"
    by (simp add: score_genes_locals_unfold select_controls_seed_irrelevant)
  show "snd (score_genes_locals np s adata gene_list ctrl_size gene_pool n_bins score_name 0
               copy)
     = (case select_controls np (rng s) (heap s ! adata) gene_list ctrl_size gene_pool n_bins of
          Inl e \<Rightarrow> Inl e
        | Inr (g, gl, ctrl) \<Rightarrow>
            (case score_of (heap s ! adata) gl ctrl of
               Inl e \<Rightarrow> Inl e
             | Inr sc \<Rightarrow> Inr (if copy then Some (length (heap s)) else None, gl, ctrl)))"
    by (simp add: score_genes_locals_unfold Let_def split: sum.splits prod.splits)
  show "score_genes_body np s adata gene_list ctrl_size gene_pool n_bins score_name RS_falsy copy
     = score_genes_body np s adata gene_list ctrl_size gene_pool n_bins score_name (RS_int 0) copy"
    by (simp add: score_genes_body_def)
  show "score_genes_body np s adata gene_list ctrl_size gene_pool n_bins score_name (RS_int 0) copy
     = score_genes_locals np s adata gene_list ctrl_size gene_pool n_bins score_name 0 copy"
    by (simp add: score_genes_locals_def)
  assume "0 < random_state \<and> random_state < 2 ^ 32"
  then show "score_genes_locals np s adata gene_list ctrl_size gene_pool n_bins score_name
                 random_state copy
        = score_genes_locals np (s\<lparr>rng := np_seed np random_state\<rparr>) adata gene_list ctrl_size
            gene_pool n_bins score_name 0 copy"
    by (simp add: score_genes_locals_unfold Let_def split: sum.splits prod.splits)
qed

theorem score_genes_falsy_random_state_not_seeded_witness:
  "(0::int) < 7 \<and> (7::int) < 2 ^ 32
   \<and> score_genes_locals rot_random ex_state 0 [''A''] 2 None 2 ''score'' 7 False
     = score_genes_locals rot_random (ex_state\<lparr>rng := np_seed rot_random 7\<rparr>) 0 [''A''] 2 None 2
         ''score'' 0 False
   \<and> score_genes_body rot_random ex_state 0 [''A''] 2 None 2 ''score'' RS_falsy False
     = score_genes_body rot_random ex_state 0 [''A''] 2 None 2 ''score'' (RS_int 0) False
   \<and> snd (score_genes_body rot_random ex_state 0 [''A''] 2 None 2 ''score'' RS_falsy False)
     = Inr (None, {''A''}, {''B''})"
proof -
  note t = score_genes_falsy_random_state_not_seeded
      [where np = rot_random and s = ex_state and adata = 0 and gene_list = "[''A'']"
         and ctrl_size = 2 and gene_pool = None and n_bins = 2 and score_name = "''score''"
         and copy = False and random_state = 7]
  have r: "(0::int) < 7 \<and> (7::int) < 2 ^ 32" by simp
  from t [THEN conjunct2, THEN conjunct2, THEN conjunct1, THEN mp, OF r]
  have a: "score_genes_locals rot_random ex_state 0 [''A''] 2 None 2 ''score'' 7 False
     = score_genes_locals rot_random (ex_state\<lparr>rng := np_seed rot_random 7\<rparr>) 0 [''A''] 2 None 2
         ''score'' 0 False" .
  from t [THEN conjunct2, THEN conjunct2, THEN conjunct2, THEN conjunct1]
  have b: "score_genes_body rot_random ex_state 0 [''A''] 2 None 2 ''score'' RS_falsy False
     = score_genes_body rot_random ex_state 0 [''A''] 2 None 2 ''score'' (RS_int 0) False" .
  from t [THEN conjunct2, THEN conjunct2, THEN conjunct2, THEN conjunct2]
  have c: "score_genes_body rot_random ex_state 0 [''A''] 2 None 2 ''score'' (RS_int 0) False
     = score_genes_locals rot_random ex_state 0 [''A''] 2 None 2 ''score'' 0 False" .
  have d: "snd (score_genes_body rot_random ex_state 0 [''A''] 2 None 2 ''score'' RS_falsy False)
     = Inr (None, {''A''}, {''B''})"
    unfolding b c by (rule ex_run_snd)
  from r a b d show ?thesis by blast
qed

subsection \<open>Bin indices\<close>

text \<open>
  Claim C1, amended. For \<open>n_bins > 1\<close> every entry of the gene pool gets a bin: with
  \<open>n\<close> the pool size over \<open>n_bins - 1\<close> rounded to the nearest integer, a half going
  to the even neighbour (not the ceiling), the bin of an entry whose average is a number
  is its competition rank by average expression integer-divided by \<open>n\<close> when \<open>n\<close> is
  not zero, and plus infinity when \<open>n\<close> is zero; an entry whose average is not a number
  gets no bin (not-a-number).
\<close>

theorem bin_index_round_half_even:
  assumes "1 < n_bins" and "i < length (resolve_gene_pool a gene_pool)"
  shows "\<exists>obs_cut n.
           bin_genes a gene_pool n_bins = Inr obs_cut
         \<and> length obs_cut = length (resolve_gene_pool a gene_pool)
         \<and> \<bar>of_nat (length (resolve_gene_pool a gene_pool)) / of_int (n_bins - 1) - of_int n\<bar> \<le> (1 / 2 :: rat)
         \<and> (\<bar>of_nat (length (resolve_gene_pool a gene_pool)) / of_int (n_bins - 1) - of_int n\<bar> = (1 / 2 :: rat)
              \<longrightarrow> even n)
         \<and> fst (obs_cut ! i) = resolve_gene_pool a gene_pool ! i
         \<and> snd (obs_cut ! i) =
             (case snd (obs_avg_of a (resolve_gene_pool a gene_pool) ! i) of
                None \<Rightarrow> NaN
              | Some x \<Rightarrow>
                  if n = 0 then PosInf
                  else Fin (int (competition_rank
                                   (map snd (obs_avg_of a (resolve_gene_pool a gene_pool))) i)
                            div n))"
proof -
  let ?pool = "resolve_gene_pool a gene_pool"
  let ?avg = "obs_avg_of a ?pool"
  let ?n = "np_round (of_nat (length ?pool) / of_int (n_bins - 1))"
  have b: "bin_genes a gene_pool n_bins = Inr (obs_cut_of ?avg ?n)"
    using assms(1) by (simp add: bin_genes_def n_items_of_def Let_def length_obs_avg_of)
  have i: "i < length ?avg" using assms(2) by (simp add: length_obs_avg_of)
  have l: "length (obs_cut_of ?avg ?n) = length ?pool"
    by (simp add: obs_cut_of_def rank_min_def length_obs_avg_of)
  have f: "fst (?avg ! i) = ?pool ! i"
    using nth_map [of i ?avg fst] i fst_obs_avg_of [of a ?pool] by simp
  have lr: "i < length (rank_min ?avg)" using i by (simp add: rank_min_def)
  have e: "obs_cut_of ?avg ?n ! i =
          (fst (?avg ! i),
           floordiv (case snd (?avg ! i) of None \<Rightarrow> None
                     | Some x \<Rightarrow> Some (competition_rank (map snd ?avg) i)) ?n)"
    using lr rank_min_nth [OF i] by (simp add: obs_cut_of_def)
  have s: "snd (obs_cut_of ?avg ?n ! i) =
             (case snd (?avg ! i) of
                None \<Rightarrow> NaN
              | Some x \<Rightarrow>
                  if ?n = 0 then PosInf
                  else Fin (int (competition_rank (map snd ?avg) i) div ?n))"
    unfolding e by (simp split: option.splits)
  from b l f s e np_round_nearest [of "of_nat (length ?pool) / of_int (n_bins - 1)"]
  show ?thesis
    by (intro exI [of _ "obs_cut_of ?avg ?n"] exI [of _ ?n]) simp
qed

theorem bin_index_round_half_even_witness:
  "(1::int) < 5 \<and> (2::nat) < length (resolve_gene_pool ex_adata (Some ex_pool5))
   \<and> bin_genes ex_adata (Some ex_pool5) 5
       = Inr [(''A'', Fin 1), (''B'', Fin 1), (''C'', Fin 3), (''D'', Fin 3), (''E'', Fin 5)]
   \<and> (\<exists>obs_cut n.
         bin_genes ex_adata (Some ex_pool5) 5 = Inr obs_cut
       \<and> \<bar>of_nat (length (resolve_gene_pool ex_adata (Some ex_pool5))) / of_int (5 - 1)
            - of_int n\<bar> \<le> (1 / 2 :: rat)
       \<and> snd (obs_cut ! 2) =
             (case snd (obs_avg_of ex_adata (resolve_gene_pool ex_adata (Some ex_pool5)) ! 2) of
                None \<Rightarrow> NaN
              | Some x \<Rightarrow>
                  if n = 0 then PosInf
                  else Fin (int (competition_rank
                       (map snd (obs_avg_of ex_adata (resolve_gene_pool ex_adata (Some ex_pool5))))
                       2) div n)))"
proof -
  have h1: "(1::int) < 5" by simp
  have h2: "(2::nat) < length (resolve_gene_pool ex_adata (Some ex_pool5))"
    by (simp add: resolve_gene_pool_def ex_adata_def ex_pool5_def)
  have b: "bin_genes ex_adata (Some ex_pool5) 5
       = Inr [(''A'', Fin 1), (''B'', Fin 1), (''C'', Fin 3), (''D'', Fin 3), (''E'', Fin 5)]"
    by code_simp
  from bin_index_round_half_even [OF h1 h2] h1 h2 b show ?thesis by blast
qed

text \<open>
  The claim as worded fails where rounding and ceiling differ: for a pool of five genes
  and five bins the source divides the ranks 1, 1, 3, 3, 5 by \<open>round (5 / 4) = 1\<close>,
  the claim by \<open>\<lceil>5 / 4\<rceil> = 2\<close>.
\<close>

theorem bin_index_not_ceil:
  "bin_genes ex_adata (Some ex_pool5) 5
     = Inr [(''A'', Fin 1), (''B'', Fin 1), (''C'', Fin 3), (''D'', Fin 3), (''E'', Fin 5)]
   \<and> map (claimed_bin_index (map snd (obs_avg_of ex_adata ex_pool5)) 5) [0, 1, 2, 3, 4]
     = [0, 0, 1, 1, 2]"
proof -
  have a: "bin_genes ex_adata (Some ex_pool5) 5
     = Inr [(''A'', Fin 1), (''B'', Fin 1), (''C'', Fin 3), (''D'', Fin 3), (''E'', Fin 5)]"
    by code_simp
  have l: "length (map snd (obs_avg_of ex_adata ex_pool5)) = 5"
    by (simp add: length_obs_avg_of ex_pool5_def)
  have b: "map (\<lambda>i. int (1 + length (filter (\<lambda>w. lt_val w (map snd (obs_avg_of ex_adata ex_pool5) ! i))
                                     (map snd (obs_avg_of ex_adata ex_pool5))))
                  div \<lceil>(of_nat (length (map snd (obs_avg_of ex_adata ex_pool5))) :: rat) / of_int (5 - 1)\<rceil>)
             [0, 1, 2, 3, 4] = [0, 0, 1, 1, 2]"
    by code_simp
  have "map (claimed_bin_index (map snd (obs_avg_of ex_adata ex_pool5)) 5) [0, 1, 2, 3, 4]
     = [0, 0, 1, 1, 2]"
    using b l by (simp add: claimed_bin_index_code)
  with a show ?thesis by simp
qed

subsection \<open>No validation of n\_bins\<close>

text \<open>
  Claim C2, amended. A call of \<open>score_genes\<close> with \<open>n_bins = 1\<close> raises an error and
  leaves every container that existed before the call unchanged: \<^verbatim>\<open>ZeroDivisionError\<close>
  from the division at line 84 (or \<^verbatim>\<open>ValueError\<close> from seeding, when \<open>random_state\<close> is a
  nonzero value that numpy rejects). The generator state is unchanged when
  \<open>random_state = 0\<close>; for an accepted nonzero \<open>random_state\<close> the generator has already
  been seeded when the error is raised.
\<close>

theorem score_genes_one_bin_raises:
  "adata < length (heap s) \<longrightarrow>
      (let res = score_genes np s adata gene_list ctrl_size gene_pool 1 score_name random_state copy
       in snd res = Inl (if random_state = 0 \<or> (0 \<le> random_state \<and> random_state < 2 ^ 32)
                         then ZeroDivisionError else ValueError)
          \<and> (\<forall>i < length (heap s). heap (fst res) ! i = heap s ! i)
          \<and> (random_state = 0 \<longrightarrow> rng (fst res) = rng s)
          \<and> (0 < random_state \<and> random_state < 2 ^ 32
                \<longrightarrow> rng (fst res) = np_seed np random_state))"
  by (auto simp: score_genes_def score_genes_locals_unfold select_controls_one_bin Let_def nth_append
        split: sum.splits prod.splits)

theorem score_genes_one_bin_raises_witness:
  "(0::nat) < length (heap ex_state) \<and> (0::int) < 7 \<and> (7::int) < 2 ^ 32
   \<and> snd (score_genes rot_random ex_state 0 [''A''] 2 None 1 ''score'' 7 True)
       = Inl ZeroDivisionError
   \<and> heap (fst (score_genes rot_random ex_state 0 [''A''] 2 None 1 ''score'' 7 True)) ! 0
       = heap ex_state ! 0
   \<and> rng (fst (score_genes rot_random ex_state 0 [''A''] 2 None 1 ''score'' 7 True))
       = np_seed rot_random 7"
proof -
  note t = score_genes_one_bin_raises
      [where np = rot_random and s = ex_state and adata = 0 and gene_list = "[''A'']"
         and ctrl_size = 2 and gene_pool = None and score_name = "''score''"
         and random_state = 7 and copy = True]
  have r: "(0::int) < 7 \<and> (7::int) < 2 ^ 32" by simp
  have e: "(if (7::int) = 0 \<or> (0 \<le> (7::int) \<and> (7::int) < 2 ^ 32) then ZeroDivisionError
            else ValueError) = ZeroDivisionError"
    by simp
  from t [THEN mp, OF ex_ref_valid]
  have a: "snd (score_genes rot_random ex_state 0 [''A''] 2 None 1 ''score'' 7 True)
             = Inl (if (7::int) = 0 \<or> (0 \<le> (7::int) \<and> (7::int) < 2 ^ 32)
                    then ZeroDivisionError else ValueError)"
    and b: "\<forall>i < length (heap ex_state).
              heap (fst (score_genes rot_random ex_state 0 [''A''] 2 None 1 ''score'' 7 True)) ! i
                = heap ex_state ! i"
    and c: "0 < (7::int) \<and> (7::int) < 2 ^ 32 \<longrightarrow>
              rng (fst (score_genes rot_random ex_state 0 [''A''] 2 None 1 ''score'' 7 True))
                = np_seed rot_random 7"
    unfolding Let_def by blast+
  from a e have a': "snd (score_genes rot_random ex_state 0 [''A''] 2 None 1 ''score'' 7 True)
             = Inl ZeroDivisionError"
    by (rule trans [OF _ arg_cong [where f = Inl]])
  from b ex_ref_valid
  have b': "heap (fst (score_genes rot_random ex_state 0 [''A''] 2 None 1 ''score'' 7 True)) ! 0
                = heap ex_state ! 0"
    by blast
  from c r have c': "rng (fst (score_genes rot_random ex_state 0 [''A''] 2 None 1 ''score'' 7 True))
                = np_seed rot_random 7"
    by blast
  from ex_ref_valid r a' b' c' show ?thesis by blast
qed

text \<open>
  The claim as worded fails twice: \<open>n_bins = 0\<close> raises nothing and the container
  gains its score column; \<open>n_bins = 1\<close> with \<open>random_state = 7\<close> raises only after the
  generator was reseeded.
\<close>

theorem n_bins_not_validated:
  "snd (score_genes rot_random ex_state 0 [''A''] 2 None 0 ''score'' 0 False) = Inr None
   \<and> obs (heap (fst (score_genes rot_random ex_state 0 [''A''] 2 None 0 ''score'' 0 False)) ! 0)
       ''score'' = Some (Floats [Some (- 1), Some 1])
   \<and> obs (heap ex_state ! 0) ''score'' = None
   \<and> snd (score_genes rot_random ex_state 0 [''A''] 2 None 1 ''score'' 7 False)
       = Inl ZeroDivisionError
   \<and> rng (fst (score_genes rot_random ex_state 0 [''A''] 2 None 1 ''score'' 7 False)) = 7
   \<and> rng ex_state = 0"
  by code_simp

subsection \<open>Determinism\<close>

text \<open>
  Claim C3, amended. For every nonzero \<open>random_state\<close>, and for \<open>random_state = 0\<close> when
  the generator is in the same state on entry, two calls of \<open>score_genes\<close> with the same
  arguments on containers with the same contents end alike: the same error, or the same
  resulting container (hence the same score column) and the same gene list and control
  genes.
\<close>

theorem score_genes_deterministic_when_seeded:
  assumes "random_state \<noteq> 0 \<or> rng s = rng t"
      and "heap s ! a = heap t ! b"
      and "a < length (heap s)" and "b < length (heap t)"
  shows "outcome (score_genes_locals np s a gene_list ctrl_size gene_pool n_bins score_name
                    random_state copy) a
       = outcome (score_genes_locals np t b gene_list ctrl_size gene_pool n_bins score_name
                    random_state copy) b"
proof -
  have g0: "(if random_state \<noteq> 0 then np_seed np random_state else rng s)
          = (if random_state \<noteq> 0 then np_seed np random_state else rng t)"
    using assms(1) by auto
  show ?thesis
    unfolding outcome_score_genes_locals [OF assms(3)] outcome_score_genes_locals [OF assms(4)]
      g0 assms(2)
    by (rule refl)
qed

theorem score_genes_deterministic_when_seeded_witness:
  "(7::int) \<noteq> 0
   \<and> heap ex_state ! 0 = heap ex_state1 ! 0
   \<and> (0::nat) < length (heap ex_state) \<and> (0::nat) < length (heap ex_state1)
   \<and> rng ex_state \<noteq> rng ex_state1
   \<and> outcome (score_genes_locals rot_random ex_state 0 [''A''] 2 None 2 ''score'' 7 True) 0
       = outcome (score_genes_locals rot_random ex_state1 0 [''A''] 2 None 2 ''score'' 7 True) 0"
proof -
  have h1: "(7::int) \<noteq> 0 \<or> rng ex_state = rng ex_state1" by simp
  have h2: "heap ex_state ! 0 = heap ex_state1 ! 0" by (simp add: ex_state1_heap0)
  have h4: "(0::nat) < length (heap ex_state1)" by (simp add: ex_state1_len)
  have h5: "rng ex_state \<noteq> rng ex_state1" by (simp add: ex_state1_rng ex_state_def)
  have h0: "(7::int) \<noteq> 0" by simp
  from score_genes_deterministic_when_seeded [OF h1 h2 ex_ref_valid h4] h0 h2 ex_ref_valid h4 h5
  show ?thesis by blast
qed

text \<open>
  The claim as worded fails for \<open>random_state = 0\<close>: two calls in a row on the same,
  unchanged container pick the control genes B, then B and C, and give different
  scores.
\<close>

theorem unseeded_runs_differ:
  "heap ex_state1 ! 0 = heap ex_state ! 0
   \<and> snd (score_genes_locals rot_random ex_state 0 [''A''] 2 None 2 ''score'' 0 True)
       = Inr (Some 1, {''A''}, {''B''})
   \<and> snd (score_genes_locals rot_random ex_state1 0 [''A''] 2 None 2 ''score'' 0 True)
       = Inr (Some 2, {''A''}, {''B'', ''C''})
   \<and> obs (heap (fst (score_genes_locals rot_random ex_state 0 [''A''] 2 None 2 ''score'' 0 True)) ! 1)
        ''score'' = Some (Floats [Some (- 1), Some 1])
   \<and> obs (heap (fst (score_genes_locals rot_random ex_state1 0 [''A''] 2 None 2 ''score'' 0 True)) ! 2)
        ''score'' = Some (Floats [Some (- 3 / 2), Some (- 1 / 2)])
   \<and> outcome (score_genes_locals rot_random ex_state 0 [''A''] 2 None 2 ''score'' 0 True) 0
     \<noteq> outcome (score_genes_locals rot_random ex_state1 0 [''A''] 2 None 2 ''score'' 0 True) 0"
proof -
  have a: "snd (score_genes_locals rot_random ex_state 0 [''A''] 2 None 2 ''score'' 0 True)
       = Inr (Some 1, {''A''}, {''B''})"
    by code_simp
  have b: "snd (score_genes_locals rot_random ex_state1 0 [''A''] 2 None 2 ''score'' 0 True)
       = Inr (Some 2, {''A''}, {''B'', ''C''})"
    by code_simp
  have c: "obs (heap (fst (score_genes_locals rot_random ex_state 0 [''A''] 2 None 2 ''score'' 0 True)) ! 1)
        ''score'' = Some (Floats [Some (- 1), Some 1])"
    by code_simp
  have d: "obs (heap (fst (score_genes_locals rot_random ex_state1 0 [''A''] 2 None 2 ''score'' 0 True)) ! 2)
        ''score'' = Some (Floats [Some (- 3 / 2), Some (- 1 / 2)])"
    by code_simp
  have ne: "{''B''} \<noteq> {''B'', ''C''}" by auto
  have e: "outcome (score_genes_locals rot_random ex_state 0 [''A''] 2 None 2 ''score'' 0 True) 0
     \<noteq> outcome (score_genes_locals rot_random ex_state1 0 [''A''] 2 None 2 ''score'' 0 True) 0"
    using ne by (auto simp: outcome_def a b)
  from ex_state1_heap0 a b c d e show ?thesis by blast
qed

subsection \<open>Phases\<close>

text \<open>
  Claim C4. When \<open>score_genes_cell_cycle\<close> returns, the container carries the columns
  S\_score, G2M\_score and phase, one entry per cell, and for every cell the phase is G1
  when both scores are below zero (also when the G2M score is the higher one), else G2M
  when the G2M score is above the S score, else S.
\<close>

theorem cell_cycle_phase_precedence:
  assumes "score_genes_cell_cycle np s adata s_genes g2m_genes copy kw = (s', Inr r)"
      and "adata < length (heap s)"
  shows "\<exists>S G P.
           obs (heap s' ! (case r of None \<Rightarrow> adata | Some c \<Rightarrow> c)) ''S_score'' = Some (Floats S)
         \<and> obs (heap s' ! (case r of None \<Rightarrow> adata | Some c \<Rightarrow> c)) ''G2M_score'' = Some (Floats G)
         \<and> obs (heap s' ! (case r of None \<Rightarrow> adata | Some c \<Rightarrow> c)) ''phase'' = Some (Strings P)
         \<and> length S = length (toarray (X (heap s ! adata)))
         \<and> length G = length (toarray (X (heap s ! adata)))
         \<and> length P = length (toarray (X (heap s ! adata)))
         \<and> (\<forall>i < length P.
               P ! i = (if lt_val (S ! i) (Some 0) \<and> lt_val (G ! i) (Some 0) then ''G1''
                        else if lt_val (S ! i) (G ! i) then ''G2M'' else ''S''))"
proof -
  from cell_cycle_Inr [OF assms] obtain S G where
    S: "length S = length (toarray (X (heap s ! adata)))" and
    G: "length G = length (toarray (X (heap s ! adata)))" and
    r: "r = (if copy then Some (length (heap s)) else None)" and
    h: "heap s' = (if copy then heap s @ [heap s ! adata] else heap s)
                 [(if copy then length (heap s) else adata) :=
                    (heap s ! adata)\<lparr>obs := (obs (heap s ! adata))
                       (''S_score'' \<mapsto> Floats S, ''G2M_score'' \<mapsto> Floats G,
                        ''phase'' \<mapsto> Strings (assign_phase S G))\<rparr>]"
    by blast
  have GS: "length G = length S" using S G by simp
  have o: "obs (heap s' ! (case r of None \<Rightarrow> adata | Some c \<Rightarrow> c))
             = (obs (heap s ! adata))
                       (''S_score'' \<mapsto> Floats S, ''G2M_score'' \<mapsto> Floats G,
                        ''phase'' \<mapsto> Strings (assign_phase S G))"
    using assms(2) by (simp add: r h)
  have "\<forall>i < length (assign_phase S G).
               assign_phase S G ! i = (if lt_val (S ! i) (Some 0) \<and> lt_val (G ! i) (Some 0) then ''G1''
                        else if lt_val (S ! i) (G ! i) then ''G2M'' else ''S'')"
    using assign_phase_nth [OF GS] assign_phase_length [OF GS] by simp
  moreover have "length (assign_phase S G) = length (toarray (X (heap s ! adata)))"
    using assign_phase_length [OF GS] S by simp
  ultimately show ?thesis
    using S G o by (intro exI [of _ S] exI [of _ G] exI [of _ "assign_phase S G"]) simp
qed

theorem cell_cycle_phase_precedence_witness:
  "(0::nat) < length (heap cc_state)
   \<and> snd (score_genes_cell_cycle rot_random cc_state 0 [''S1''] [''M1''] False cc_kwargs) = Inr None
   \<and> (\<exists>S G P.
           obs (heap (fst (score_genes_cell_cycle rot_random cc_state 0 [''S1''] [''M1''] False cc_kwargs)) ! 0) ''S_score'' = Some (Floats S)
         \<and> obs (heap (fst (score_genes_cell_cycle rot_random cc_state 0 [''S1''] [''M1''] False cc_kwargs)) ! 0) ''G2M_score'' = Some (Floats G)
         \<and> obs (heap (fst (score_genes_cell_cycle rot_random cc_state 0 [''S1''] [''M1''] False cc_kwargs)) ! 0) ''phase'' = Some (Strings P)
         \<and> S = [Some (- 3), Some 1, Some 2] \<and> G = [Some (- 2), Some 3, Some (- 1)]
         \<and> P = [''G1'', ''G2M'', ''S'']
         \<and> (\<forall>i < length P.
               P ! i = (if lt_val (S ! i) (Some 0) \<and> lt_val (G ! i) (Some 0) then ''G1''
                        else if lt_val (S ! i) (G ! i) then ''G2M'' else ''S'')))"
proof -
  have run: "score_genes_cell_cycle rot_random cc_state 0 [''S1''] [''M1''] False cc_kwargs
     = (fst (score_genes_cell_cycle rot_random cc_state 0 [''S1''] [''M1''] False cc_kwargs), Inr None)"
    using cc_run_snd by (metis prod.collapse)
  from cell_cycle_phase_precedence [OF run cc_ref_valid] cc_run_cols cc_run_snd cc_ref_valid
  show ?thesis by auto
qed

subsection \<open>The forced ctrl\_size\<close>

text \<open>
  Claim C6, amended. A keyword dictionary that supplies \<open>ctrl_size\<close> makes
  \<open>score_genes_cell_cycle\<close> raise \<^verbatim>\<open>TypeError\<close> at the first call of the scorer (after
  the optional copy), so the scorer does not run. Every call that returns had no
  \<open>ctrl_size\<close> in the dictionary and ran the scorer twice in place, both times with
  \<open>ctrl_size = min (len s_genes) (len g2m_genes)\<close>: the S\_score and G2M\_score columns
  and the generator state are the ones these two calls leave.
\<close>

theorem cell_cycle_ctrl_size_forced:
  "(kw_ctrl_size kw \<noteq> None \<longrightarrow>
      score_genes_cell_cycle np s adata s_genes g2m_genes copy kw
        = (if copy then s\<lparr>heap := heap s @ [heap s ! adata]\<rparr> else s, Inl TypeError))
   \<and> (score_genes_cell_cycle np s adata s_genes g2m_genes copy kw = (s', Inr r)
        \<and> adata < length (heap s) \<longrightarrow>
      kw_ctrl_size kw = None
      \<and> (\<exists>s2 s3.
            score_genes np (if copy then s\<lparr>heap := heap s @ [heap s ! adata]\<rparr> else s)
               (if copy then length (heap s) else adata) s_genes
               (min (int (length s_genes)) (int (length g2m_genes)))
               (case kw_gene_pool kw of None \<Rightarrow> None | Some p \<Rightarrow> p)
               (case kw_n_bins kw of None \<Rightarrow> 25 | Some n \<Rightarrow> n) ''S_score''
               (case kw_random_state kw of None \<Rightarrow> 0 | Some n \<Rightarrow> n) False = (s2, Inr None)
          \<and> score_genes np s2 (if copy then length (heap s) else adata) g2m_genes
               (min (int (length s_genes)) (int (length g2m_genes)))
               (case kw_gene_pool kw of None \<Rightarrow> None | Some p \<Rightarrow> p)
               (case kw_n_bins kw of None \<Rightarrow> 25 | Some n \<Rightarrow> n) ''G2M_score''
               (case kw_random_state kw of None \<Rightarrow> 0 | Some n \<Rightarrow> n) False = (s3, Inr None)
          \<and> rng s' = rng s3
          \<and> obs (heap s' ! (if copy then length (heap s) else adata)) ''S_score''
              = obs (heap s2 ! (if copy then length (heap s) else adata)) ''S_score''
          \<and> obs (heap s' ! (if copy then length (heap s) else adata)) ''G2M_score''
              = obs (heap s3 ! (if copy then length (heap s) else adata)) ''G2M_score''))"
proof (intro conjI impI)
  assume "kw_ctrl_size kw \<noteq> None"
  then show "score_genes_cell_cycle np s adata s_genes g2m_genes copy kw
        = (if copy then s\<lparr>heap := heap s @ [heap s ! adata]\<rparr> else s, Inl TypeError)"
    by (simp add: score_genes_cell_cycle_def call_score_genes_def copy_adata_def)
next
  assume asm: "score_genes_cell_cycle np s adata s_genes g2m_genes copy kw = (s', Inr r)
        \<and> adata < length (heap s)"
  then have run: "score_genes_cell_cycle np s adata s_genes g2m_genes copy kw = (s', Inr r)"
    and valid: "adata < length (heap s)" by simp_all
  define s1 where "s1 = (if copy then s\<lparr>heap := heap s @ [heap s ! adata]\<rparr> else s)"
  define ad where "ad = (if copy then length (heap s) else adata)"
  define cs where "cs = min (int (length s_genes)) (int (length g2m_genes))"
  define gp where "gp = (case kw_gene_pool kw of None \<Rightarrow> None | Some p \<Rightarrow> p)"
  define nb where "nb = (case kw_n_bins kw of None \<Rightarrow> (25::int) | Some n \<Rightarrow> n)"
  define rs where "rs = (case kw_random_state kw of None \<Rightarrow> (0::int) | Some n \<Rightarrow> n)"
  have cp: "(if copy then copy_adata s adata else (s, adata)) = (s1, ad)"
    by (simp add: copy_adata_def s1_def ad_def)
  have ad: "ad < length (heap s1)"
    using valid by (auto simp: s1_def ad_def)
  obtain s2 r2 where c1: "call_score_genes np s1 ad s_genes ''S_score'' cs kw = (s2, r2)"
    by (cases "call_score_genes np s1 ad s_genes ''S_score'' cs kw")
  obtain s3 r3 where c2: "call_score_genes np s2 ad g2m_genes ''G2M_score'' cs kw = (s3, r3)"
    by (cases "call_score_genes np s2 ad g2m_genes ''G2M_score'' cs kw")
  from run obtain x2 where r2: "r2 = Inr x2"
    by (cases r2) (simp_all add: score_genes_cell_cycle_def cp cs_def [symmetric] c1)
  from run r2 obtain x3 where r3: "r3 = Inr x3"
    by (cases r3) (simp_all add: score_genes_cell_cycle_def cp cs_def [symmetric] c1 c2)
  from call_score_genes_Inr [OF c1 [unfolded r2]]
  have kw: "kw_adata kw = None" "kw_gene_list kw = None" "kw_score_name kw = None"
           "kw_ctrl_size kw = None" "kw_other kw = []"
    by simp_all
  show "kw_ctrl_size kw = None" by (rule kw(4))
  have e1: "score_genes np s1 ad s_genes cs gp nb ''S_score'' rs False = (s2, Inr x2)"
    using c1 r2 unfolding call_score_genes_ok [OF kw] gp_def nb_def rs_def by simp
  have e2: "score_genes np s2 ad g2m_genes cs gp nb ''G2M_score'' rs False = (s3, Inr x3)"
    using c2 r3 unfolding call_score_genes_ok [OF kw] gp_def nb_def rs_def by simp
  from score_genes_Inr [OF e1] have x2: "x2 = None"
    and l2: "length (heap s2) = length (heap s1)" by auto
  from score_genes_Inr [OF e2] obtain sc where x3: "x3 = None"
    and h3: "heap s3 = (heap s2)[ad := (heap s2 ! ad)\<lparr>obs := (obs (heap s2 ! ad))
               (''G2M_score'' \<mapsto> Floats sc)\<rparr>]"
    by auto
  have ad3: "ad < length (heap s3)" using ad l2 h3 by simp
  have S3: "obs (heap s3 ! ad) ''S_score'' = obs (heap s2 ! ad) ''S_score''"
    using ad l2 h3 by simp
  from run have fin: "(\<exists>S G. s' = s3\<lparr>heap := (heap s3)[ad := (heap s3 ! ad)\<lparr>obs := (obs (heap s3 ! ad))
                             (''phase'' \<mapsto> Strings (assign_phase S G))\<rparr>]\<rparr>)"
    by (auto simp: score_genes_cell_cycle_def cp cs_def [symmetric] c1 c2 r2 r3 Let_def
             split: sum.splits)
  then have "rng s' = rng s3"
    and "obs (heap s' ! ad) ''S_score'' = obs (heap s2 ! ad) ''S_score''"
    and "obs (heap s' ! ad) ''G2M_score'' = obs (heap s3 ! ad) ''G2M_score''"
    using ad3 S3 by auto
  with e1 e2 x2 x3
  show "\<exists>s2 s3.
            score_genes np (if copy then s\<lparr>heap := heap s @ [heap s ! adata]\<rparr> else s)
               (if copy then length (heap s) else adata) s_genes
               (min (int (length s_genes)) (int (length g2m_genes)))
               (case kw_gene_pool kw of None \<Rightarrow> None | Some p \<Rightarrow> p)
               (case kw_n_bins kw of None \<Rightarrow> 25 | Some n \<Rightarrow> n) ''S_score''
               (case kw_random_state kw of None \<Rightarrow> 0 | Some n \<Rightarrow> n) False = (s2, Inr None)
          \<and> score_genes np s2 (if copy then length (heap s) else adata) g2m_genes
               (min (int (length s_genes)) (int (length g2m_genes)))
               (case kw_gene_pool kw of None \<Rightarrow> None | Some p \<Rightarrow> p)
               (case kw_n_bins kw of None \<Rightarrow> 25 | Some n \<Rightarrow> n) ''G2M_score''
               (case kw_random_state kw of None \<Rightarrow> 0 | Some n \<Rightarrow> n) False = (s3, Inr None)
          \<and> rng s' = rng s3
          \<and> obs (heap s' ! (if copy then length (heap s) else adata)) ''S_score''
              = obs (heap s2 ! (if copy then length (heap s) else adata)) ''S_score''
          \<and> obs (heap s' ! (if copy then length (heap s) else adata)) ''G2M_score''
              = obs (heap s3 ! (if copy then length (heap s) else adata)) ''G2M_score''"
    unfolding s1_def [symmetric] ad_def [symmetric] cs_def [symmetric] gp_def [symmetric]
      nb_def [symmetric] rs_def [symmetric]
    by (intro exI [of _ s2] exI [of _ s3]) simp
qed

theorem cell_cycle_ctrl_size_forced_witness:
  "kw_ctrl_size (cc_kwargs\<lparr>kw_ctrl_size := Some 5\<rparr>) \<noteq> None
   \<and> score_genes_cell_cycle rot_random cc_state 0 [''S1''] [''M1''] True
        (cc_kwargs\<lparr>kw_ctrl_size := Some 5\<rparr>)
       = (cc_state\<lparr>heap := heap cc_state @ [heap cc_state ! 0]\<rparr>, Inl TypeError)
   \<and> (0::nat) < length (heap cc_state)
   \<and> snd (score_genes_cell_cycle rot_random cc_state 0 [''S1''] [''M1''] False cc_kwargs)
       = Inr None
   \<and> kw_ctrl_size cc_kwargs = None
   \<and> (\<exists>s2 s3.
         score_genes rot_random cc_state 0 [''S1''] 1 None 2 ''S_score'' 2 False = (s2, Inr None)
       \<and> score_genes rot_random s2 0 [''M1''] 1 None 2 ''G2M_score'' 2 False = (s3, Inr None)
       \<and> obs (heap s2 ! 0) ''S_score'' = Some (Floats [Some (- 3), Some 1, Some 2])
       \<and> obs (heap s3 ! 0) ''G2M_score'' = Some (Floats [Some (- 2), Some 3, Some (- 1)]))"
proof -
  have k: "kw_ctrl_size (cc_kwargs\<lparr>kw_ctrl_size := Some 5\<rparr>) \<noteq> None" by simp
  have run: "score_genes_cell_cycle rot_random cc_state 0 [''S1''] [''M1''] False cc_kwargs
     = (fst (score_genes_cell_cycle rot_random cc_state 0 [''S1''] [''M1''] False cc_kwargs),
        Inr None)"
    using cc_run_snd by (metis prod.collapse)
  have kw: "kw_gene_pool cc_kwargs = None" "kw_n_bins cc_kwargs = Some 2"
    "kw_random_state cc_kwargs = Some 2"
    by (simp_all add: cc_kwargs_def no_kwargs_def)
  note a = cell_cycle_ctrl_size_forced
      [where np = rot_random and s = cc_state and adata = 0 and s_genes = "[''S1'']"
         and g2m_genes = "[''M1'']" and copy = True
         and kw = "cc_kwargs\<lparr>kw_ctrl_size := Some 5\<rparr>"]
  note b = cell_cycle_ctrl_size_forced
      [where np = rot_random and s = cc_state and adata = 0 and s_genes = "[''S1'']"
         and g2m_genes = "[''M1'']" and copy = False and kw = cc_kwargs and r = None
         and s' = "fst (score_genes_cell_cycle rot_random cc_state 0 [''S1''] [''M1''] False
                          cc_kwargs)"]
  from a [THEN conjunct1, THEN mp, OF k]
  have 1: "score_genes_cell_cycle rot_random cc_state 0 [''S1''] [''M1''] True
        (cc_kwargs\<lparr>kw_ctrl_size := Some 5\<rparr>)
       = (cc_state\<lparr>heap := heap cc_state @ [heap cc_state ! 0]\<rparr>, Inl TypeError)"
    by simp
  note c = b [THEN conjunct2, THEN mp, OF conjI [OF run cc_ref_valid]]
  from c have 2: "kw_ctrl_size cc_kwargs = None" by (rule conjunct1)
  from c [THEN conjunct2]
  have "\<exists>s2 s3.
         score_genes rot_random cc_state 0 [''S1''] 1 None 2 ''S_score'' 2 False = (s2, Inr None)
       \<and> score_genes rot_random s2 0 [''M1''] 1 None 2 ''G2M_score'' 2 False = (s3, Inr None)
       \<and> rng (fst (score_genes_cell_cycle rot_random cc_state 0 [''S1''] [''M1''] False
                          cc_kwargs)) = rng s3
       \<and> obs (heap (fst (score_genes_cell_cycle rot_random cc_state 0 [''S1''] [''M1''] False
                          cc_kwargs)) ! 0) ''S_score'' = obs (heap s2 ! 0) ''S_score''
       \<and> obs (heap (fst (score_genes_cell_cycle rot_random cc_state 0 [''S1''] [''M1''] False
                          cc_kwargs)) ! 0) ''G2M_score'' = obs (heap s3 ! 0) ''G2M_score''"
    by (simp add: kw)
  then obtain s2 s3 where
    e1: "score_genes rot_random cc_state 0 [''S1''] 1 None 2 ''S_score'' 2 False = (s2, Inr None)"
    and e2: "score_genes rot_random s2 0 [''M1''] 1 None 2 ''G2M_score'' 2 False = (s3, Inr None)"
    and o1: "obs (heap (fst (score_genes_cell_cycle rot_random cc_state 0 [''S1''] [''M1''] False
                          cc_kwargs)) ! 0) ''S_score'' = obs (heap s2 ! 0) ''S_score''"
    and o2: "obs (heap (fst (score_genes_cell_cycle rot_random cc_state 0 [''S1''] [''M1''] False
                          cc_kwargs)) ! 0) ''G2M_score'' = obs (heap s3 ! 0) ''G2M_score''"
    by blast
  have p1: "obs (heap s2 ! 0) ''S_score'' = Some (Floats [Some (- 3), Some 1, Some 2])"
    using o1 cc_run_cols(1) by simp
  have p2: "obs (heap s3 ! 0) ''G2M_score'' = Some (Floats [Some (- 2), Some 3, Some (- 1)])"
    using o2 cc_run_cols(2) by simp
  from e1 e2 p1 p2 have 3: "\<exists>s2 s3.
         score_genes rot_random cc_state 0 [''S1''] 1 None 2 ''S_score'' 2 False = (s2, Inr None)
       \<and> score_genes rot_random s2 0 [''M1''] 1 None 2 ''G2M_score'' 2 False = (s3, Inr None)
       \<and> obs (heap s2 ! 0) ''S_score'' = Some (Floats [Some (- 3), Some 1, Some 2])
       \<and> obs (heap s3 ! 0) ''G2M_score'' = Some (Floats [Some (- 2), Some 3, Some (- 1)])"
    by blast
  from k 1 2 3 cc_run_snd cc_ref_valid show ?thesis by blast
qed

text \<open>
  The claim as worded fails for a dictionary with \<open>ctrl_size = 5\<close>: the call raises
  \<^verbatim>\<open>TypeError\<close> and the state is as before, with no score column written.
\<close>

theorem cell_cycle_ctrl_size_keyword_rejected:
  "score_genes_cell_cycle rot_random cc_state 0 [''S1''] [''M1''] False
       (cc_kwargs\<lparr>kw_ctrl_size := Some 5\<rparr>) = (cc_state, Inl TypeError)"
  by (simp add: score_genes_cell_cycle_def call_score_genes_def cc_kwargs_def no_kwargs_def)

subsection \<open>Copy semantics\<close>

text \<open>
  Claim C7. When \<open>score_genes\<close> or \<open>score_genes_cell_cycle\<close> returns with
  \<open>copy = True\<close>, the original container is unchanged (its annotation table included)
  and the value returned is a reference to another, new container that is the original
  with the new column or columns; with \<open>copy = False\<close> the value is \<^verbatim>\<open>None\<close> and the
  original container has gained the new column or columns.
\<close>

theorem copy_semantics:
  "(score_genes np s adata gene_list ctrl_size gene_pool n_bins score_name random_state copy
       = (s', Inr r) \<and> adata < length (heap s) \<longrightarrow>
      (copy \<longrightarrow> (\<exists>c sc. r = Some c \<and> c \<noteq> adata \<and> length (heap s) \<le> c
                    \<and> heap s' ! adata = heap s ! adata
                    \<and> heap s' ! c = (heap s ! adata)\<lparr>obs := (obs (heap s ! adata))
                                        (score_name \<mapsto> Floats sc)\<rparr>))
    \<and> (\<not> copy \<longrightarrow> (\<exists>sc. r = None
                    \<and> heap s' ! adata = (heap s ! adata)\<lparr>obs := (obs (heap s ! adata))
                                        (score_name \<mapsto> Floats sc)\<rparr>)))
   \<and> (score_genes_cell_cycle np s adata s_genes g2m_genes copy kw = (t', Inr q)
       \<and> adata < length (heap s) \<longrightarrow>
      (copy \<longrightarrow> (\<exists>c S G P. q = Some c \<and> c \<noteq> adata \<and> length (heap s) \<le> c
                    \<and> heap t' ! adata = heap s ! adata
                    \<and> heap t' ! c = (heap s ! adata)\<lparr>obs := (obs (heap s ! adata))
                         (''S_score'' \<mapsto> Floats S, ''G2M_score'' \<mapsto> Floats G,
                          ''phase'' \<mapsto> Strings P)\<rparr>))
    \<and> (\<not> copy \<longrightarrow> (\<exists>S G P. q = None
                    \<and> heap t' ! adata = (heap s ! adata)\<lparr>obs := (obs (heap s ! adata))
                         (''S_score'' \<mapsto> Floats S, ''G2M_score'' \<mapsto> Floats G,
                          ''phase'' \<mapsto> Strings P)\<rparr>)))"
proof (intro conjI impI; elim conjE)
  assume run: "score_genes np s adata gene_list ctrl_size gene_pool n_bins score_name
                 random_state copy = (s', Inr r)"
    and valid: "adata < length (heap s)"
  from score_genes_Inr [OF run] obtain sc0 where
    r: "r = (if copy then Some (length (heap s)) else None)" and
    h: "heap s' = (if copy then heap s @ [heap s ! adata] else heap s)
                 [(if copy then length (heap s) else adata) :=
                    (heap s ! adata)\<lparr>obs := (obs (heap s ! adata))
                        (score_name \<mapsto> Floats sc0)\<rparr>]"
    by blast
  {
    assume copy
    with r h valid
    show "\<exists>c sc. r = Some c \<and> c \<noteq> adata \<and> length (heap s) \<le> c
                    \<and> heap s' ! adata = heap s ! adata
                    \<and> heap s' ! c = (heap s ! adata)\<lparr>obs := (obs (heap s ! adata))
                                        (score_name \<mapsto> Floats sc)\<rparr>"
      by (intro exI [of _ "length (heap s)"] exI [of _ sc0])
         (simp add: nth_append)
  }
  {
    assume "\<not> copy"
    with r h valid
    show "\<exists>sc. r = None
                    \<and> heap s' ! adata = (heap s ! adata)\<lparr>obs := (obs (heap s ! adata))
                                        (score_name \<mapsto> Floats sc)\<rparr>"
      by (intro exI [of _ sc0]) simp
  }
next
  assume run: "score_genes_cell_cycle np s adata s_genes g2m_genes copy kw = (t', Inr q)"
    and valid: "adata < length (heap s)"
  from cell_cycle_Inr [OF run valid] obtain S G where
    r: "q = (if copy then Some (length (heap s)) else None)" and
    h: "heap t' = (if copy then heap s @ [heap s ! adata] else heap s)
                 [(if copy then length (heap s) else adata) :=
                    (heap s ! adata)\<lparr>obs := (obs (heap s ! adata))
                       (''S_score'' \<mapsto> Floats S, ''G2M_score'' \<mapsto> Floats G,
                        ''phase'' \<mapsto> Strings (assign_phase S G))\<rparr>]"
    by blast
  {
    assume copy
    with r h valid
    show "\<exists>c S G P. q = Some c \<and> c \<noteq> adata \<and> length (heap s) \<le> c
                    \<and> heap t' ! adata = heap s ! adata
                    \<and> heap t' ! c = (heap s ! adata)\<lparr>obs := (obs (heap s ! adata))
                         (''S_score'' \<mapsto> Floats S, ''G2M_score'' \<mapsto> Floats G,
                          ''phase'' \<mapsto> Strings P)\<rparr>"
      by (intro exI [of _ "length (heap s)"] exI [of _ S] exI [of _ G]
                exI [of _ "assign_phase S G"])
         (simp add: nth_append)
  }
  {
    assume "\<not> copy"
    with r h valid
    show "\<exists>S G P. q = None
                    \<and> heap t' ! adata = (heap s ! adata)\<lparr>obs := (obs (heap s ! adata))
                         (''S_score'' \<mapsto> Floats S, ''G2M_score'' \<mapsto> Floats G,
                          ''phase'' \<mapsto> Strings P)\<rparr>"
      by (intro exI [of _ S] exI [of _ G] exI [of _ "assign_phase S G"]) simp
  }
qed

theorem copy_semantics_witness:
  "(0::nat) < length (heap cc_state)
   \<and> snd (score_genes rot_random cc_state 0 [''S1''] 1 None 2 ''score'' 2 True) = Inr (Some 1)
   \<and> snd (score_genes_cell_cycle rot_random cc_state 0 [''S1''] [''M1''] True cc_kwargs)
       = Inr (Some 1)
   \<and> heap (fst (score_genes rot_random cc_state 0 [''S1''] 1 None 2 ''score'' 2 True)) ! 0
       = heap cc_state ! 0
   \<and> heap (fst (score_genes_cell_cycle rot_random cc_state 0 [''S1''] [''M1''] True cc_kwargs)) ! 0
       = heap cc_state ! 0
   \<and> snd (score_genes rot_random cc_state 0 [''S1''] 1 None 2 ''score'' 2 False) = Inr None
   \<and> (\<exists>sc. heap (fst (score_genes rot_random cc_state 0 [''S1''] 1 None 2 ''score'' 2 False)) ! 0
         = (heap cc_state ! 0)\<lparr>obs := (obs (heap cc_state ! 0))(''score'' \<mapsto> Floats sc)\<rparr>)"
proof -
  have run1: "score_genes rot_random cc_state 0 [''S1''] 1 None 2 ''score'' 2 True
     = (fst (score_genes rot_random cc_state 0 [''S1''] 1 None 2 ''score'' 2 True), Inr (Some 1))"
    using cc_copy_run_snd(1) by (metis prod.collapse)
  have run2: "score_genes_cell_cycle rot_random cc_state 0 [''S1''] [''M1''] True cc_kwargs
     = (fst (score_genes_cell_cycle rot_random cc_state 0 [''S1''] [''M1''] True cc_kwargs),
        Inr (Some 1))"
    using cc_copy_run_snd(3) by (metis prod.collapse)
  have run3: "score_genes rot_random cc_state 0 [''S1''] 1 None 2 ''score'' 2 False
     = (fst (score_genes rot_random cc_state 0 [''S1''] 1 None 2 ''score'' 2 False), Inr None)"
    using cc_copy_run_snd(2) by (metis prod.collapse)
  note t = copy_semantics [where np = rot_random and s = cc_state and adata = 0 and copy = True
        and gene_list = "[''S1'']" and ctrl_size = 1 and gene_pool = None and n_bins = 2
        and score_name = "''score''" and random_state = 2 and r = "Some 1"
        and s_genes = "[''S1'']" and g2m_genes = "[''M1'']" and kw = cc_kwargs and q = "Some 1"
        and s' = "fst (score_genes rot_random cc_state 0 [''S1''] 1 None 2 ''score'' 2 True)"
        and t' = "fst (score_genes_cell_cycle rot_random cc_state 0 [''S1''] [''M1''] True cc_kwargs)"]
  note u = copy_semantics [where np = rot_random and s = cc_state and adata = 0 and copy = False
        and gene_list = "[''S1'']" and ctrl_size = 1 and gene_pool = None and n_bins = 2
        and score_name = "''score''" and random_state = 2 and r = "None"
        and s' = "fst (score_genes rot_random cc_state 0 [''S1''] 1 None 2 ''score'' 2 False)"]
  from t run1 run2 cc_ref_valid
  have a: "heap (fst (score_genes rot_random cc_state 0 [''S1''] 1 None 2 ''score'' 2 True)) ! 0
       = heap cc_state ! 0"
    and b: "heap (fst (score_genes_cell_cycle rot_random cc_state 0 [''S1''] [''M1''] True cc_kwargs)) ! 0
       = heap cc_state ! 0"
    by auto
  from u run3 cc_ref_valid
  have c: "\<exists>sc. heap (fst (score_genes rot_random cc_state 0 [''S1''] 1 None 2 ''score'' 2 False)) ! 0
         = (heap cc_state ! 0)\<lparr>obs := (obs (heap cc_state ! 0))(''score'' \<mapsto> Floats sc)\<rparr>"
    by auto
  from a b c cc_copy_run_snd cc_ref_valid show ?thesis by blast
qed

subsection \<open>Size of the selection from one bin\<close>





end
